theory Spec2Isabelle
  imports Complex_Main "HOL-Library.Monad_Syntax"
begin

section \<open>Tensors\<close>

text \<open>
  A tensor is its shape, its dtype, the device it lives on and its elements in logical
  row-major order. The element type \<open>'a\<close> is left open: the floating-point arithmetic on
  elements is supplied from outside (see \<open>ext\<close> below), so nothing proved here depends on
  how half precision rounds. The layout is a tensor of integers.
\<close>

datatype dtype = Bool | Float16 | BFloat16 | Float32 | Float64 | Int64

record ('a, 'dev) tensor =
  shape :: "nat list"
  dtype :: dtype
  device :: 'dev
  data :: "'a list"

definition numel :: "('a, 'dev) tensor \<Rightarrow> nat" where
  "numel t = prod_list (shape t)"

definition well_formed :: "('a, 'dev) tensor \<Rightarrow> bool" where
  "well_formed t = (length (data t) = prod_list (shape t))"

text \<open>
  Each \<^verbatim>\<open>assert\<close> of the source is one constructor; the message of the source is
  given beside it.
\<close>

datatype assertion =
    BlockSizeSupported      \<comment> \<open>"Only block sizes in [16, 32, 64, 128] are supported"\<close>
  | SameKQ                  \<comment> \<open>"Blocksparse requires the same dimensions for K and Q for now"\<close>
  | QLayoutConsistent       \<comment> \<open>"Actual sequence size and layout are inconsistent" (on q)\<close>
  | KLayoutConsistent       \<comment> \<open>"Actual sequence size and layout are inconsistent" (on k)\<close>
  | SeqMultiple nat int     \<comment> \<open>"Sequence length {}  must be a multiple of block size {}"\<close>
  | MaskShape               \<comment> \<open>the assertion on the mask's shape, which has no message\<close>

datatype error =
    AssertionError assertion
  | IndexError
  | ValueError
  | RuntimeError
  | ZeroDivisionError
  | AttributeError
  | KernelError

datatype warning =
    LayoutLacksHeadDimension   \<comment> \<open>"The layout passed is lacking a head dimension and a batch dimension"\<close>
  | AssumingSameLayout         \<comment> \<open>"Now assuming that the same layout is to be used across all heads"\<close>
  | NewLayoutDimensions "nat list"  \<comment> \<open>"New layout dimensions: {layout.shape}"\<close>
  | MaskHasToBeAdditive        \<comment> \<open>"Mask has to be additive. Fixing that but this slows things down"\<close>

text \<open>\<^verbatim>\<open>t.shape[i]\<close>: Python indexing, negative indices count from the end, out of range raises
  IndexError (here \<open>None\<close>).\<close>

definition shape_at :: "nat list \<Rightarrow> int \<Rightarrow> nat option" where
  "shape_at s i =
     (if 0 \<le> i \<and> i < int (length s) then Some (s ! nat i)
      else if i < 0 \<and> - int (length s) \<le> i then Some (s ! nat (int (length s) + i))
      else None)"

text \<open>\<^verbatim>\<open>t.unsqueeze(0).expand(n, -1, ..., -1)\<close>: a new leading dimension of size \<open>n\<close>, every
  slice along it being \<open>t\<close>.\<close>

definition unsqueeze_expand :: "nat \<Rightarrow> ('a, 'dev) tensor \<Rightarrow> ('a, 'dev) tensor" where
  "unsqueeze_expand n t = t\<lparr>shape := n # shape t, data := concat (replicate n (data t))\<rparr>"

text \<open>The multi-index of the flat position \<open>k\<close> in a row-major tensor of the given shape.\<close>

fun unravel :: "nat list \<Rightarrow> nat \<Rightarrow> nat list" where
  "unravel [] k = []"
| "unravel (d # ds) k = (k div prod_list ds) # unravel ds (k mod prod_list ds)"

text \<open>\<^verbatim>\<open>zip(*t.nonzero(as_tuple=True))\<close>: the multi-indices of the nonzero elements, in
  row-major order.\<close>

definition nonzero :: "(int, 'dev) tensor \<Rightarrow> nat list list" where
  "nonzero t = map (unravel (shape t)) (filter (\<lambda>k. data t ! k \<noteq> 0) [0..<length (data t)])"


section \<open>The attention module\<close>

text \<open>
  The kernel objects of the external library are opaque; a kernel handle is the record
  of the arguments it was constructed with.
\<close>

record 'dev matmul_op =
  mm_layout :: "(int, 'dev) tensor"
  mm_block :: int
  mm_mode :: string
  mm_trans_a :: bool
  mm_trans_b :: bool
  mm_device :: 'dev

record 'dev softmax_op =
  sm_layout :: "(int, 'dev) tensor"
  sm_block :: int
  sm_device :: 'dev

text \<open>
  The attributes of a \<^verbatim>\<open>BlockSparseAttention\<close> instance. An attribute that
  \<^verbatim>\<open>__init__\<close> does not set is \<open>None\<close> until \<^verbatim>\<open>create_triton_kernels\<close> sets it;
  \<^verbatim>\<open>hasattr(self, "sparse_dot_sdd")\<close> is \<open>sparse_dot_sdd self \<noteq> None\<close>. \<open>attn_drop\<close> holds the
  probability of the dropout module. \<open>to_gather\<close> and \<open>broadcast_to_gather\<close> hold the
  index values (the Python list and the long tensor made from it have the same ones).
\<close>

record 'dev BlockSparseAttention =
  causal :: bool
  attn_drop :: real
  layout :: "(int, 'dev) tensor"
  block_size :: int
  requires_head_dimension :: bool
  requires_same_k_q_dimensions :: bool
  supports_attention_mask :: bool
  supports_key_padding_mask :: bool
  sparse_dot_sdd :: "'dev matmul_op option"
  sparse_dot_dsd :: "'dev matmul_op option"
  sparse_softmax :: "'dev softmax_op option"
  to_gather :: "nat list option"
  broadcast_to_gather :: "nat list option"

subsection \<open>\<^verbatim>\<open>__init__\<close>\<close>

text \<open>
  The constructor returns the warnings it logged and either the error it raised or the
  new instance. \<open>num_heads\<close> is a head count, a natural number. The dropout module of the
  tensor library raises ValueError for a probability outside [0, 1]; it is constructed
  after the assertion on the block size.
\<close>

definition BlockSparseAttention_init ::
  "(int, 'dev) tensor \<Rightarrow> int \<Rightarrow> real \<Rightarrow> nat \<Rightarrow> bool
     \<Rightarrow> warning list \<times> (error + 'dev BlockSparseAttention)" where
  "BlockSparseAttention_init layout0 block_size0 dropout num_heads causal0 =
     (let (layout1, warnings) =
            (if length (shape layout0) = 2
             then (let l = unsqueeze_expand num_heads layout0
                   in (l, [LayoutLacksHeadDimension, AssumingSameLayout,
                           NewLayoutDimensions (shape l)]))
             else (layout0, []))
      in if \<not> (block_size0 = 16 \<or> block_size0 = 32 \<or> block_size0 = 64 \<or> block_size0 = 128)
         then (warnings, Inl (AssertionError BlockSizeSupported))
         else if dropout < 0 \<or> 1 < dropout then (warnings, Inl ValueError)
         else (warnings,
               Inr \<lparr>causal = causal0,
                    attn_drop = dropout,
                    layout = layout1,
                    block_size = block_size0,
                    requires_head_dimension = True,
                    requires_same_k_q_dimensions = True,
                    supports_attention_mask = True,
                    supports_key_padding_mask = False,
                    sparse_dot_sdd = None,
                    sparse_dot_dsd = None,
                    sparse_softmax = None,
                    to_gather = None,
                    broadcast_to_gather = None\<rparr>))"

subsection \<open>\<^verbatim>\<open>create_triton_kernels\<close>\<close>

text \<open>
  The loop over the active blocks. Unpacking a multi-index into \<^verbatim>\<open>(h, i, j)\<close> raises
  ValueError unless it has three components; the lists keep what was appended so far.
\<close>

fun gather_loop ::
  "nat \<Rightarrow> nat list list \<Rightarrow> nat list \<Rightarrow> nat list \<Rightarrow> nat list \<times> nat list \<times> error option" where
  "gather_loop num_col_blocks [] tg bg = (tg, bg, None)"
| "gather_loop num_col_blocks (c # cs) tg bg =
     (case c of
        [h, i, j] \<Rightarrow> gather_loop num_col_blocks cs (tg @ [h * num_col_blocks + j]) (bg @ [j])
      | _ \<Rightarrow> (tg, bg, Some ValueError))"

definition create_triton_kernels ::
  "'dev BlockSparseAttention \<Rightarrow> 'dev \<Rightarrow> 'dev BlockSparseAttention \<times> error option" where
  "create_triton_kernels self dev =
     (let self1 = self
            \<lparr>sparse_dot_sdd := Some \<lparr>mm_layout = layout self, mm_block = block_size self,
                                    mm_mode = ''sdd'', mm_trans_a = False, mm_trans_b = True,
                                    mm_device = dev\<rparr>,
             sparse_dot_dsd := Some \<lparr>mm_layout = layout self, mm_block = block_size self,
                                    mm_mode = ''dsd'', mm_trans_a = False, mm_trans_b = False,
                                    mm_device = dev\<rparr>,
             sparse_softmax := Some \<lparr>sm_layout = layout self, sm_block = block_size self,
                                    sm_device = dev\<rparr>,
             to_gather := Some [],
             broadcast_to_gather := Some []\<rparr>
      in case shape_at (shape (layout self)) (- 1) of
           None \<Rightarrow> (self1, Some IndexError)
         | Some num_col_blocks \<Rightarrow>
             (case gather_loop num_col_blocks (nonzero (layout self)) [] [] of
                (tg, bg, err) \<Rightarrow>
                  (self1\<lparr>to_gather := Some tg, broadcast_to_gather := Some bg\<rparr>, err)))"


section \<open>\<^verbatim>\<open>forward\<close>\<close>

subsection \<open>What comes from outside\<close>

text \<open>
  The element arithmetic of the tensor library and the kernels of the external library
  are parameters of the model. A kernel call may raise (\<open>None\<close>, reported as
  \<open>KernelError\<close>). The dropout module is a function of its probability and its input (one
  sample of the random mask). The tensor library's own check that the operands of an
  elementwise operation live on one device is not modelled: the operations on elements
  are total, and a kernel handed tensors of a device it cannot serve is a kernel call that
  raises.
\<close>

record ('a, 'dev) ext =
  elem_cast :: "dtype \<Rightarrow> 'a \<Rightarrow> 'a"
  elem_div :: "'a \<Rightarrow> real \<Rightarrow> 'a"
  elem_add :: "'a \<Rightarrow> 'a \<Rightarrow> 'a"
  elem_truth :: "'a \<Rightarrow> bool"
  additive_keep :: 'a
  additive_drop :: 'a
  matmul_call ::
    "'dev matmul_op \<Rightarrow> ('a, 'dev) tensor \<Rightarrow> ('a, 'dev) tensor \<Rightarrow> ('a, 'dev) tensor option"
  softmax_call ::
    "'dev softmax_op \<Rightarrow> ('a, 'dev) tensor \<Rightarrow> real \<Rightarrow> bool \<Rightarrow> ('a, 'dev) tensor option"
  dropout_call :: "real \<Rightarrow> ('a, 'dev) tensor \<Rightarrow> ('a, 'dev) tensor"

text \<open>What a call of \<^verbatim>\<open>forward\<close> does that can be seen from outside, in order.\<close>

datatype ('a, 'dev) event =
    CreateKernels 'dev
  | Warn warning
  | SparseDotSDD "'dev matmul_op" "('a, 'dev) tensor" "('a, 'dev) tensor"
  | SparseSoftmax "'dev softmax_op" "('a, 'dev) tensor" real bool
  | SparseDotDSD "'dev matmul_op" "('a, 'dev) tensor" "('a, 'dev) tensor"

fun is_kernel_call :: "('a, 'dev) event \<Rightarrow> bool" where
  "is_kernel_call (SparseDotSDD _ _ _) = True"
| "is_kernel_call (SparseSoftmax _ _ _ _) = True"
| "is_kernel_call (SparseDotDSD _ _ _) = True"
| "is_kernel_call _ = False"

subsection \<open>Tensor operations used by \<^verbatim>\<open>forward\<close>\<close>

text \<open>\<^verbatim>\<open>t.to(dt)\<close>; \<^verbatim>\<open>t.half()\<close> is \<^verbatim>\<open>t.to(torch.float16)\<close>. A tensor that has the dtype
  already is returned as it is.\<close>

definition to_dtype :: "('a, 'dev) ext \<Rightarrow> dtype \<Rightarrow> ('a, 'dev) tensor \<Rightarrow> ('a, 'dev) tensor" where
  "to_dtype ext dt t =
     (if dtype t = dt then t else t\<lparr>dtype := dt, data := map (elem_cast ext dt) (data t)\<rparr>)"

definition half :: "('a, 'dev) ext \<Rightarrow> ('a, 'dev) tensor \<Rightarrow> ('a, 'dev) tensor" where
  "half ext t = to_dtype ext Float16 t"

text \<open>\<^verbatim>\<open>t / c\<close> for a Python float \<open>c\<close>: elementwise, the dtype of a floating tensor is kept.\<close>

definition div_scalar :: "('a, 'dev) ext \<Rightarrow> ('a, 'dev) tensor \<Rightarrow> real \<Rightarrow> ('a, 'dev) tensor" where
  "div_scalar ext t c = t\<lparr>data := map (\<lambda>x. elem_div ext x c) (data t)\<rparr>"

text \<open>
  \<^verbatim>\<open>t.reshape(dims)\<close>: the elements stay in row-major order. One size may be \<open>-1\<close> and is
  then inferred; a shape that does not hold the elements raises RuntimeError (\<open>None\<close>).
\<close>

definition reshape :: "('a, 'dev) tensor \<Rightarrow> int list \<Rightarrow> ('a, 'dev) tensor option" where
  "reshape t dims =
     (if list_ex (\<lambda>d. d < - 1) dims \<or> 1 < length (filter (\<lambda>d. d = - 1) dims) then None
      else if list_ex (\<lambda>d. d = - 1) dims then
        (let p = prod_list (filter (\<lambda>d. d \<noteq> - 1) dims)
         in if p = 0 \<or> int (numel t) mod p \<noteq> 0 then None
            else Some (t\<lparr>shape := map (\<lambda>d. nat (if d = - 1 then int (numel t) div p else d)) dims\<rparr>))
      else if prod_list dims = int (numel t) then Some (t\<lparr>shape := map nat dims\<rparr>)
      else None)"

text \<open>
  \<^verbatim>\<open>t[:, idx, :]\<close> on a three-dimensional tensor (it is applied to the result of the
  reshape only): the blocks named by \<open>idx\<close>, in the order of \<open>idx\<close>, for each batch entry.
  An index out of range raises IndexError (\<open>None\<close>).
\<close>

definition index_blocks :: "('a, 'dev) tensor \<Rightarrow> nat list \<Rightarrow> ('a, 'dev) tensor option" where
  "index_blocks t idx =
     (case shape t of
        [B, N, bs] \<Rightarrow>
          if list_ex (\<lambda>i. N \<le> i) idx then None
          else Some (t\<lparr>shape := [B, length idx, bs],
                       data := concat (map (\<lambda>b. concat (map (\<lambda>i. take bs (drop ((b * N + i) * bs) (data t))) idx))
                                        [0..<B])\<rparr>)
      | _ \<Rightarrow> None)"

text \<open>\<^verbatim>\<open>t.unsqueeze(-2)\<close>: a dimension of size one before the last one.\<close>

definition unsqueeze_m2 :: "('a, 'dev) tensor \<Rightarrow> ('a, 'dev) tensor" where
  "unsqueeze_m2 t = t\<lparr>shape := butlast (shape t) @ [1] @ (if shape t = [] then [] else [last (shape t)])\<rparr>"

text \<open>The flat position of a multi-index.\<close>

fun ravel :: "nat list \<Rightarrow> nat list \<Rightarrow> nat" where
  "ravel (d # ds) (i # is) = i * prod_list ds + ravel ds is"
| "ravel _ _ = 0"

text \<open>
  \<^verbatim>\<open>t += m\<close>: \<open>m\<close> is broadcast to the shape of \<open>t\<close> (trailing dimensions aligned, a size of
  one stretched), which raises RuntimeError (\<open>None\<close>) when the shapes do not allow it.
\<close>

definition broadcastable_to :: "nat list \<Rightarrow> nat list \<Rightarrow> bool" where
  "broadcastable_to src tgt =
     (length src \<le> length tgt \<and>
      list_all2 (\<lambda>s t. s = t \<or> s = 1) src (drop (length tgt - length src) tgt))"

definition broadcast_index :: "nat list \<Rightarrow> nat list \<Rightarrow> nat \<Rightarrow> nat" where
  "broadcast_index src tgt k =
     ravel src (map2 (\<lambda>s i. if s = 1 then 0 else i) src
                  (drop (length tgt - length src) (unravel tgt k)))"

definition iadd ::
  "('a, 'dev) ext \<Rightarrow> ('a, 'dev) tensor \<Rightarrow> ('a, 'dev) tensor \<Rightarrow> ('a, 'dev) tensor option" where
  "iadd ext t m =
     (if broadcastable_to (shape m) (shape t)
      then Some (t\<lparr>data := map (\<lambda>k. elem_add ext (data t ! k)
                                        (data m ! broadcast_index (shape m) (shape t) k))
                               [0..<length (data t)]\<rparr>)
      else None)"

text \<open>
  Modelled from the spec: \<^verbatim>\<open>bool_mask_to_additive\<close> of
  \<^verbatim>\<open>xformers.components.attention.utils\<close>, whose source is not at hand. The spec: it
  "maps True to 0.0, False to large-negative-sentinel" and returns a float tensor.
\<close>

definition bool_mask_to_additive :: "('a, 'dev) ext \<Rightarrow> ('a, 'dev) tensor \<Rightarrow> ('a, 'dev) tensor" where
  "bool_mask_to_additive ext m =
     m\<lparr>dtype := Float32,
       data := map (\<lambda>x. if elem_truth ext x then additive_keep ext else additive_drop ext)
                   (data m)\<rparr>"


subsection \<open>The steps of \<^verbatim>\<open>forward\<close>\<close>

text \<open>
  A step yields the events it caused and either the error it raised or its value;
  \<open>bind_log\<close> runs the next step after a value and stops at an error.
\<close>

type_synonym ('a, 'dev, 'x) step = "('a, 'dev) event list \<times> (error + 'x)"

definition bind_log :: "('a, 'dev, 'x) step \<Rightarrow> ('x \<Rightarrow> ('a, 'dev, 'y) step) \<Rightarrow> ('a, 'dev, 'y) step" where
  "bind_log m f =
     (case m of
        (l, Inl e) \<Rightarrow> (l, Inl e)
      | (l, Inr x) \<Rightarrow> (case f x of (l', r) \<Rightarrow> (l @ l', r)))"

text \<open>Lines 166-169: the kernels are created when the instance has no attribute
  \<^verbatim>\<open>sparse_dot_sdd\<close> yet, for the device of the query.\<close>

definition ensure_kernels ::
  "'dev BlockSparseAttention \<Rightarrow> 'dev
     \<Rightarrow> 'dev BlockSparseAttention \<times> ('a, 'dev) event list \<times> error option" where
  "ensure_kernels self dev =
     (if sparse_dot_sdd self = None
      then (case create_triton_kernels self dev of
              (self1, err) \<Rightarrow> (self1, [CreateKernels dev], err))
      else (self, [], None))"

text \<open>\<^verbatim>\<open>update_mask_type\<close> (lines 103-107) and its use in lines 171-172.\<close>

definition update_mask_type ::
  "('a, 'dev) ext \<Rightarrow> ('a, 'dev) tensor \<Rightarrow> ('a, 'dev, ('a, 'dev) tensor) step" where
  "update_mask_type ext m = ([Warn MaskHasToBeAdditive], Inr (bool_mask_to_additive ext m))"

definition convert_mask ::
  "('a, 'dev) ext \<Rightarrow> ('a, 'dev) tensor option \<Rightarrow> ('a, 'dev, ('a, 'dev) tensor option) step" where
  "convert_mask ext att_mask =
     (case att_mask of
        None \<Rightarrow> ([], Inr None)
      | Some m \<Rightarrow>
          if dtype m = Bool
          then bind_log (update_mask_type ext m) (\<lambda>m1. ([], Inr (Some m1)))
          else ([], Inr (Some m)))"

text \<open>Lines 174-189: the four assertions on the shapes of \<open>q\<close> and \<open>k\<close>. \<^verbatim>\<open>%\<close> by zero raises
  ZeroDivisionError.\<close>

definition check_shapes :: "'dev BlockSparseAttention \<Rightarrow> nat list \<Rightarrow> nat list \<Rightarrow> error option" where
  "check_shapes self qs ks =
     (case shape_at qs (- 2) of
        None \<Rightarrow> Some IndexError
      | Some q2 \<Rightarrow>
     (case shape_at ks (- 2) of
        None \<Rightarrow> Some IndexError
      | Some k2 \<Rightarrow>
          if q2 \<noteq> k2 then Some (AssertionError SameKQ)
          else
     (case shape_at (shape (layout self)) (- 2) of
        None \<Rightarrow> Some IndexError
      | Some rows \<Rightarrow>
          if int q2 \<noteq> int rows * block_size self then Some (AssertionError QLayoutConsistent)
          else if int k2 \<noteq> int rows * block_size self then Some (AssertionError KLayoutConsistent)
          else if block_size self = 0 then Some ZeroDivisionError
          else if int q2 mod block_size self \<noteq> 0
          then Some (AssertionError (SeqMultiple q2 (block_size self)))
          else None)))"

text \<open>Lines 206-210: the assertion on the mask's shape; \<^verbatim>\<open>and\<close> stops at the first
  conjunct that is false. \<open>None\<close> is an IndexError of a shape access.\<close>

definition mask_shape_check :: "nat list \<Rightarrow> nat list \<Rightarrow> bool option" where
  "mask_shape_check ms qs =
     do {
       m0 \<leftarrow> shape_at ms 0;
       q0 \<leftarrow> shape_at qs 0;
       if m0 \<noteq> q0 then Some False
       else do {
         m1 \<leftarrow> shape_at ms 1;
         q1 \<leftarrow> shape_at qs 1;
         if \<not> (m1 = q1 \<or> m1 = 1) then Some False
         else do {
           ml \<leftarrow> shape_at ms (- 1);
           q2 \<leftarrow> shape_at qs (- 2);
           Some (ml = q2)
         }
       }
     }"

text \<open>Lines 211-221: the mask is cut into blocks of \<open>block_size\<close> elements and the blocks of
  the active positions are gathered, through \<open>broadcast_to_gather\<close> when the mask has one
  head and through \<open>to_gather\<close> otherwise.\<close>

definition block_mask ::
  "'dev BlockSparseAttention \<Rightarrow> ('a, 'dev) tensor \<Rightarrow> error + ('a, 'dev) tensor" where
  "block_mask self att_mask =
     (case (shape_at (shape att_mask) 0, shape_at (shape att_mask) 1,
            shape_at (shape att_mask) (- 1)) of
        (Some m0, Some m1, Some ml) \<Rightarrow>
          if block_size self = 0 then Inl ZeroDivisionError
          else
            (case reshape att_mask
                    [int m0, (int m1 * int ml) div block_size self, block_size self] of
               None \<Rightarrow> Inl RuntimeError
             | Some block_att_mask \<Rightarrow>
                 (case (if m1 = 1 then broadcast_to_gather self else to_gather self) of
                    None \<Rightarrow> Inl AttributeError
                  | Some idx \<Rightarrow>
                      (case index_blocks block_att_mask idx of
                         None \<Rightarrow> Inl IndexError
                       | Some b \<Rightarrow> Inr b)))
      | _ \<Rightarrow> Inl IndexError)"

text \<open>Lines 203-224: nothing without a mask; with one, the shape assertion, the block
  mask, and its addition to the sparse attention matrix.\<close>

definition apply_mask ::
  "('a, 'dev) ext \<Rightarrow> 'dev BlockSparseAttention \<Rightarrow> ('a, 'dev) tensor \<Rightarrow> ('a, 'dev) tensor
     \<Rightarrow> ('a, 'dev) tensor option \<Rightarrow> error + ('a, 'dev) tensor" where
  "apply_mask ext self q sparse_att_mat att_mask =
     (case att_mask of
        None \<Rightarrow> Inr sparse_att_mat
      | Some m \<Rightarrow>
          (case mask_shape_check (shape m) (shape q) of
             None \<Rightarrow> Inl IndexError
           | Some False \<Rightarrow> Inl (AssertionError MaskShape)
           | Some True \<Rightarrow>
               (case block_mask self m of
                  Inl e \<Rightarrow> Inl e
                | Inr block_att_mask \<Rightarrow>
                    (case iadd ext sparse_att_mat (unsqueeze_m2 block_att_mask) of
                       None \<Rightarrow> Inl RuntimeError
                     | Some s \<Rightarrow> Inr s))))"

text \<open>The three kernel calls. The event is logged when the kernel is invoked, whether it
  returns or raises.\<close>

definition kernel_result :: "'x option \<Rightarrow> error + 'x" where
  "kernel_result r = (case r of None \<Rightarrow> Inl KernelError | Some x \<Rightarrow> Inr x)"

definition call_sdd ::
  "('a, 'dev) ext \<Rightarrow> 'dev BlockSparseAttention \<Rightarrow> ('a, 'dev) tensor \<Rightarrow> ('a, 'dev) tensor
     \<Rightarrow> ('a, 'dev, ('a, 'dev) tensor) step" where
  "call_sdd ext self a b =
     (case sparse_dot_sdd self of
        None \<Rightarrow> ([], Inl AttributeError)
      | Some op \<Rightarrow> ([SparseDotSDD op a b], kernel_result (matmul_call ext op a b)))"

definition call_softmax ::
  "('a, 'dev) ext \<Rightarrow> 'dev BlockSparseAttention \<Rightarrow> ('a, 'dev) tensor \<Rightarrow> real
     \<Rightarrow> ('a, 'dev, ('a, 'dev) tensor) step" where
  "call_softmax ext self x scale =
     (case sparse_softmax self of
        None \<Rightarrow> ([], Inl AttributeError)
      | Some op \<Rightarrow> ([SparseSoftmax op x scale (causal self)],
                    kernel_result (softmax_call ext op x scale (causal self))))"

definition call_dsd ::
  "('a, 'dev) ext \<Rightarrow> 'dev BlockSparseAttention \<Rightarrow> ('a, 'dev) tensor \<Rightarrow> ('a, 'dev) tensor
     \<Rightarrow> ('a, 'dev, ('a, 'dev) tensor) step" where
  "call_dsd ext self a b =
     (case sparse_dot_dsd self of
        None \<Rightarrow> ([], Inl AttributeError)
      | Some op \<Rightarrow> ([SparseDotDSD op a b], kernel_result (matmul_call ext op a b)))"

definition lift_check :: "error option \<Rightarrow> ('a, 'dev, unit) step" where
  "lift_check c = (case c of None \<Rightarrow> ([], Inr ()) | Some e \<Rightarrow> ([], Inl e))"

definition lift_index :: "'x option \<Rightarrow> ('a, 'dev, 'x) step" where
  "lift_index c = (case c of None \<Rightarrow> ([], Inl IndexError) | Some x \<Rightarrow> ([], Inr x))"

text \<open>Lines 197-224: the query is scaled, the sparse scores are computed and the mask is
  added to them.\<close>

definition masked_scores ::
  "('a, 'dev) ext \<Rightarrow> 'dev BlockSparseAttention \<Rightarrow> ('a, 'dev) tensor \<Rightarrow> ('a, 'dev) tensor
     \<Rightarrow> ('a, 'dev) tensor option \<Rightarrow> ('a, 'dev, ('a, 'dev) tensor) step" where
  "masked_scores ext self q k att_mask =
     bind_log (lift_index (shape_at (shape q) (- 1))) (\<lambda>head_dim.
     let q1 = div_scalar ext q (sqrt (real head_dim)) in
     bind_log (call_sdd ext self q1 k) (\<lambda>sparse_att_mat.
     ([], apply_mask ext self q1 sparse_att_mat att_mask)))"

text \<open>Lines 226-235: softmax, dropout, the product with the values, and the cast back to
  the dtype of the query.\<close>

definition weighted_values ::
  "('a, 'dev) ext \<Rightarrow> 'dev BlockSparseAttention \<Rightarrow> ('a, 'dev) tensor \<Rightarrow> ('a, 'dev) tensor
     \<Rightarrow> real \<Rightarrow> dtype \<Rightarrow> ('a, 'dev, ('a, 'dev) tensor) step" where
  "weighted_values ext self sparse_att_mat v scale q_dtype =
     bind_log (call_softmax ext self sparse_att_mat scale) (\<lambda>sparse_att_mat1.
     let sparse_att_mat2 = dropout_call ext (attn_drop self) sparse_att_mat1 in
     bind_log (call_dsd ext self sparse_att_mat2 v) (\<lambda>a.
     ([], Inr (to_dtype ext q_dtype a))))"

text \<open>Lines 171-235, on an instance that has its kernels.\<close>

definition attention ::
  "('a, 'dev) ext \<Rightarrow> 'dev BlockSparseAttention \<Rightarrow> ('a, 'dev) tensor \<Rightarrow> ('a, 'dev) tensor
     \<Rightarrow> ('a, 'dev) tensor \<Rightarrow> ('a, 'dev) tensor option \<Rightarrow> real
     \<Rightarrow> ('a, 'dev, ('a, 'dev) tensor) step" where
  "attention ext self q k v att_mask scale =
     bind_log (convert_mask ext att_mask) (\<lambda>att_mask1.
     bind_log (lift_check (check_shapes self (shape q) (shape k))) (\<lambda>_.
     let q_dtype = dtype q;
         q1 = half ext q; k1 = half ext k; v1 = half ext v;
         att_mask2 = map_option (half ext) att_mask1
     in
     bind_log (masked_scores ext self q1 k1 att_mask2) (\<lambda>sparse_att_mat.
     weighted_values ext self sparse_att_mat v1 scale q_dtype)))"

text \<open>\<^verbatim>\<open>forward\<close>: the instance after the call, the events of the call, and the error or
  the result.\<close>

definition forward ::
  "('a, 'dev) ext \<Rightarrow> 'dev BlockSparseAttention \<Rightarrow> ('a, 'dev) tensor \<Rightarrow> ('a, 'dev) tensor
     \<Rightarrow> ('a, 'dev) tensor \<Rightarrow> ('a, 'dev) tensor option \<Rightarrow> real
     \<Rightarrow> 'dev BlockSparseAttention \<times> ('a, 'dev) event list \<times> (error + ('a, 'dev) tensor)" where
  "forward ext self q k v att_mask scale =
     (case ensure_kernels self (device q) of
        (self1, log0, Some e) \<Rightarrow> (self1, log0, Inl e)
      | (self1, log0, None) \<Rightarrow>
          (case attention ext self1 q k v att_mask scale of
             (log1, r) \<Rightarrow> (self1, log0 @ log1, r)))"


section \<open>\<^verbatim>\<open>forward\<close> on a store\<close>

text \<open>
  To see which tensors a call writes to, the tensors are kept in a store: a tensor object
  is an address (an index into the store), a new tensor is appended, and an in-place
  operation overwrites the tensor at its address. \<^verbatim>\<open>t.half()\<close> and \<^verbatim>\<open>t.to(dt)\<close> return
  \<open>t\<close> itself when it has the dtype already and a new tensor otherwise; \<^verbatim>\<open>t / c\<close>, the
  mask conversion and the dropout module (\<^verbatim>\<open>inplace=False\<close>) return new tensors;
  \<^verbatim>\<open>sparse_att_mat += ...\<close> writes to \<open>sparse_att_mat\<close>. Of the external kernels it is
  taken that the matrix products return a new tensor and that the softmax either returns
  a new tensor or overwrites its first argument (\<open>softmax_in_place\<close>); reading their
  arguments, they write to nothing else.
\<close>

type_synonym ('a, 'dev) store = "('a, 'dev) tensor list"

type_synonym ('a, 'dev, 'x) sstep =
  "('a, 'dev) store \<Rightarrow> ('a, 'dev) event list \<times> (error + 'x) \<times> ('a, 'dev) store"

definition bind_store ::
  "('a, 'dev, 'x) sstep \<Rightarrow> ('x \<Rightarrow> ('a, 'dev, 'y) sstep) \<Rightarrow> ('a, 'dev, 'y) sstep" where
  "bind_store m f h =
     (case m h of
        (l, Inl e, h1) \<Rightarrow> (l, Inl e, h1)
      | (l, Inr x, h1) \<Rightarrow> (case f x h1 of (l', r, h2) \<Rightarrow> (l @ l', r, h2)))"

definition pure_step :: "('a, 'dev, 'x) step \<Rightarrow> ('a, 'dev, 'x) sstep" where
  "pure_step s h = (fst s, snd s, h)"

definition new_tensor :: "('a, 'dev) tensor \<Rightarrow> ('a, 'dev, nat) sstep" where
  "new_tensor t h = ([], Inr (length h), h @ [t])"

definition load :: "nat \<Rightarrow> ('a, 'dev, ('a, 'dev) tensor) sstep" where
  "load r h = ([], Inr (h ! r), h)"

definition overwrite :: "nat \<Rightarrow> ('a, 'dev) tensor \<Rightarrow> ('a, 'dev, nat) sstep" where
  "overwrite r t h = ([], Inr r, h[r := t])"

definition to_dtype_store :: "('a, 'dev) ext \<Rightarrow> dtype \<Rightarrow> nat \<Rightarrow> ('a, 'dev, nat) sstep" where
  "to_dtype_store ext dt r =
     bind_store (load r) (\<lambda>t.
     if dtype t = dt then pure_step ([], Inr r) else new_tensor (to_dtype ext dt t))"

definition half_store :: "('a, 'dev) ext \<Rightarrow> nat \<Rightarrow> ('a, 'dev, nat) sstep" where
  "half_store ext r = to_dtype_store ext Float16 r"

definition convert_mask_store ::
  "('a, 'dev) ext \<Rightarrow> nat option \<Rightarrow> ('a, 'dev, nat option) sstep" where
  "convert_mask_store ext att_mask =
     (case att_mask of
        None \<Rightarrow> pure_step ([], Inr None)
      | Some r \<Rightarrow>
          bind_store (load r) (\<lambda>m.
          if dtype m = Bool
          then bind_store (pure_step (update_mask_type ext m)) (\<lambda>m1.
               bind_store (new_tensor m1) (\<lambda>r1. pure_step ([], Inr (Some r1))))
          else pure_step ([], Inr (Some r))))"

definition half_mask_store ::
  "('a, 'dev) ext \<Rightarrow> nat option \<Rightarrow> ('a, 'dev, nat option) sstep" where
  "half_mask_store ext att_mask =
     (case att_mask of
        None \<Rightarrow> pure_step ([], Inr None)
      | Some r \<Rightarrow> bind_store (half_store ext r) (\<lambda>r1. pure_step ([], Inr (Some r1))))"

definition apply_mask_store ::
  "('a, 'dev) ext \<Rightarrow> 'dev BlockSparseAttention \<Rightarrow> nat \<Rightarrow> nat \<Rightarrow> nat option
     \<Rightarrow> ('a, 'dev, nat) sstep" where
  "apply_mask_store ext self q sparse_att_mat att_mask =
     bind_store (load q) (\<lambda>qt.
     bind_store (load sparse_att_mat) (\<lambda>st.
     (case att_mask of
        None \<Rightarrow> pure_step ([], Inr sparse_att_mat)
      | Some r \<Rightarrow>
          bind_store (load r) (\<lambda>m.
          bind_store (pure_step ([], apply_mask ext self qt st (Some m))) (\<lambda>s1.
          overwrite sparse_att_mat s1)))))"

definition masked_scores_store ::
  "('a, 'dev) ext \<Rightarrow> 'dev BlockSparseAttention \<Rightarrow> nat \<Rightarrow> nat \<Rightarrow> nat option
     \<Rightarrow> ('a, 'dev, nat) sstep" where
  "masked_scores_store ext self q k att_mask =
     bind_store (load q) (\<lambda>qt.
     bind_store (load k) (\<lambda>kt.
     bind_store (pure_step (lift_index (shape_at (shape qt) (- 1)))) (\<lambda>head_dim.
     bind_store (new_tensor (div_scalar ext qt (sqrt (real head_dim)))) (\<lambda>q1.
     bind_store (load q1) (\<lambda>q1t.
     bind_store (pure_step (call_sdd ext self q1t kt)) (\<lambda>st.
     bind_store (new_tensor st) (\<lambda>sparse_att_mat.
     apply_mask_store ext self q1 sparse_att_mat att_mask)))))))"

definition weighted_values_store ::
  "('a, 'dev) ext \<Rightarrow> bool \<Rightarrow> 'dev BlockSparseAttention \<Rightarrow> nat \<Rightarrow> nat \<Rightarrow> real \<Rightarrow> dtype
     \<Rightarrow> ('a, 'dev, nat) sstep" where
  "weighted_values_store ext softmax_in_place self sparse_att_mat v scale q_dtype =
     bind_store (load sparse_att_mat) (\<lambda>st.
     bind_store (load v) (\<lambda>vt.
     bind_store (pure_step (call_softmax ext self st scale)) (\<lambda>s1.
     bind_store (if softmax_in_place then overwrite sparse_att_mat s1 else new_tensor s1)
       (\<lambda>sparse_att_mat1.
     bind_store (load sparse_att_mat1) (\<lambda>s1t.
     bind_store (new_tensor (dropout_call ext (attn_drop self) s1t)) (\<lambda>sparse_att_mat2.
     bind_store (load sparse_att_mat2) (\<lambda>s2.
     bind_store (pure_step (call_dsd ext self s2 vt)) (\<lambda>res.
     bind_store (new_tensor res) (\<lambda>a.
     to_dtype_store ext q_dtype a)))))))))"

definition attention_store ::
  "('a, 'dev) ext \<Rightarrow> bool \<Rightarrow> 'dev BlockSparseAttention \<Rightarrow> nat \<Rightarrow> nat \<Rightarrow> nat \<Rightarrow> nat option
     \<Rightarrow> real \<Rightarrow> ('a, 'dev, nat) sstep" where
  "attention_store ext softmax_in_place self q k v att_mask scale =
     bind_store (convert_mask_store ext att_mask) (\<lambda>att_mask1.
     bind_store (load q) (\<lambda>qt.
     bind_store (load k) (\<lambda>kt.
     bind_store (pure_step (lift_check (check_shapes self (shape qt) (shape kt)))) (\<lambda>_.
     bind_store (half_store ext q) (\<lambda>q1.
     bind_store (half_store ext k) (\<lambda>k1.
     bind_store (half_store ext v) (\<lambda>v1.
     bind_store (half_mask_store ext att_mask1) (\<lambda>att_mask2.
     bind_store (masked_scores_store ext self q1 k1 att_mask2) (\<lambda>sparse_att_mat.
     weighted_values_store ext softmax_in_place self sparse_att_mat v1 scale (dtype qt))))))))))"

text \<open>\<^verbatim>\<open>forward\<close> on the store: \<open>q\<close>, \<open>k\<close>, \<open>v\<close> and \<open>att_mask\<close> are the addresses of the
  caller's tensors; the result is the address of the returned tensor.\<close>

definition forward_store ::
  "('a, 'dev) ext \<Rightarrow> bool \<Rightarrow> 'dev BlockSparseAttention \<Rightarrow> ('a, 'dev) store
     \<Rightarrow> nat \<Rightarrow> nat \<Rightarrow> nat \<Rightarrow> nat option \<Rightarrow> real
     \<Rightarrow> 'dev BlockSparseAttention \<times> ('a, 'dev) event list \<times> (error + nat) \<times> ('a, 'dev) store" where
  "forward_store ext softmax_in_place self h q k v att_mask scale =
     (case ensure_kernels self (device (h ! q)) of
        (self1, log0, Some e) \<Rightarrow> (self1, log0, Inl e, h)
      | (self1, log0, None) \<Rightarrow>
          (case attention_store ext softmax_in_place self1 q k v att_mask scale h of
             (log1, r, h1) \<Rightarrow> (self1, log0 @ log1, r, h1)))"


section \<open>Notions used to state the properties\<close>

text \<open>\<^verbatim>\<open>t[h]\<close>: the slice of a tensor at position \<open>h\<close> of its first dimension.\<close>

definition head_slice :: "nat \<Rightarrow> ('a, 'dev) tensor \<Rightarrow> ('a, 'dev) tensor" where
  "head_slice h t =
     (let n = prod_list (tl (shape t))
      in t\<lparr>shape := tl (shape t), data := take n (drop (h * n) (data t))\<rparr>)"

text \<open>
  The active blocks of a three-dimensional layout in the words of the spec: the (head,
  row, column) triples of the nonzero positions, heads outermost, then rows, then
  columns.
\<close>

definition active_triples :: "(int, 'dev) tensor \<Rightarrow> (nat \<times> nat \<times> nat) list" where
  "active_triples t =
     (case shape t of
        [H, R, C] \<Rightarrow>
          [(h, i, j). h \<leftarrow> [0..<H], i \<leftarrow> [0..<R], j \<leftarrow> [0..<C],
                      data t ! (h * (R * C) + i * C + j) \<noteq> 0]
      | _ \<Rightarrow> [])"

text \<open>
  \<^verbatim>\<open>m.expand(-1, H, -1, -1)\<close> on a mask whose second dimension has size one: the mask
  with \<open>H\<close> heads that all hold the values of the one head of \<open>m\<close>.
\<close>

definition expand_heads :: "nat \<Rightarrow> ('a, 'dev) tensor \<Rightarrow> ('a, 'dev) tensor" where
  "expand_heads H m =
     (case shape m of
        B # _ # rest \<Rightarrow>
          m\<lparr>shape := B # H # rest,
            data := concat (map (\<lambda>b. concat (replicate H
                       (take (prod_list rest) (drop (b * prod_list rest) (data m))))) [0..<B])\<rparr>
      | _ \<Rightarrow> m)"

text \<open>
  A mask shape that is invalid in the words of the spec, for a mask and a query with four
  dimensions: the batch size differs from the query's, or the head dimension is neither
  one nor the query's number of heads, or the trailing dimension is not the query's
  sequence length.
\<close>

definition invalid_mask_shape :: "nat list \<Rightarrow> nat list \<Rightarrow> bool" where
  "invalid_mask_shape ms qs =
     (case (ms, qs) of
        ([mb, mh, m1, mlen], [b, nh, s, d]) \<Rightarrow> mb \<noteq> b \<or> (mh \<noteq> 1 \<and> mh \<noteq> nh) \<or> mlen \<noteq> s
      | _ \<Rightarrow> False)"

text \<open>The warning that \<^verbatim>\<open>forward\<close> logs for a mask, and the mask as it reaches line 204
  (made additive when it is boolean, then cast to half precision).\<close>

definition mask_warnings :: "('a, 'dev) tensor option \<Rightarrow> ('a, 'dev) event list" where
  "mask_warnings att_mask =
     (case att_mask of
        None \<Rightarrow> []
      | Some m \<Rightarrow> if dtype m = Bool then [Warn MaskHasToBeAdditive] else [])"

definition prepared_mask ::
  "('a, 'dev) ext \<Rightarrow> ('a, 'dev) tensor option \<Rightarrow> ('a, 'dev) tensor option" where
  "prepared_mask ext att_mask =
     map_option (\<lambda>m. half ext (if dtype m = Bool then bool_mask_to_additive ext m else m)) att_mask"

text \<open>
  Modelled from the spec: the score of a query row against a key row as the external
  kernels compute it. The matrix product is "sparse(Q \<cdot> K^T) restricted to active blocks",
  so one score is the dot product of a row of \<open>q\<close> with a row of \<open>k\<close>; the softmax kernel
  multiplies the scores by \<open>scale\<close> (the repository's test compares it with
  \<^verbatim>\<open>torch.softmax(x * scale, -1)\<close>).
\<close>

definition dot :: "real list \<Rightarrow> real list \<Rightarrow> real" where
  "dot xs ys = sum_list (map2 (*) xs ys)"

definition row :: "nat \<Rightarrow> nat \<Rightarrow> 'a list \<Rightarrow> 'a list" where
  "row d i xs = take d (drop (i * d) xs)"

text \<open>
  A step on the store keeps the first \<open>n\<close> tensors: started on a store that holds at
  least \<open>n\<close> tensors, it ends on a store that is no shorter and has the same first \<open>n\<close>
  tensors, and its value satisfies \<open>Q\<close>.
\<close>

definition keeps :: "nat \<Rightarrow> ('a, 'dev, 'x) sstep \<Rightarrow> ('x \<Rightarrow> bool) \<Rightarrow> bool" where
  "keeps n m Q =
     (\<forall>h. n \<le> length h \<longrightarrow>
        (case m h of
           (l, r, h') \<Rightarrow> length h \<le> length h' \<and> take n h' = take n h \<and>
                         (\<forall>x. r = Inr x \<longrightarrow> Q x)))"

text \<open>
  A step on the store refines a step on values: run on the store \<open>h\<close>, it logs the same
  events and ends with the same error, or with an address of the final store that holds
  the value.
\<close>

definition refines ::
  "('a, 'dev, nat) sstep \<Rightarrow> ('a, 'dev) store \<Rightarrow> ('a, 'dev, ('a, 'dev) tensor) step \<Rightarrow> bool" where
  "refines m h s =
     (case m h of
        (l, r, h') \<Rightarrow> l = fst s \<and> map_sum id ((!) h') r = snd s \<and>
                      (\<forall>a. r = Inr a \<longrightarrow> a < length h'))"



section \<open>Example inputs\<close>

text \<open>Layouts: one without a head dimension, one with two heads of two by two blocks,
  and one with a single block.\<close>

definition ex_layout2 :: "(int, string) tensor" where
  "ex_layout2 = \<lparr>shape = [2, 2], dtype = Int64, device = ''cpu'', data = [1, 0, 1, 1]\<rparr>"

definition ex_layout3 :: "(int, string) tensor" where
  "ex_layout3 = \<lparr>shape = [2, 2, 2], dtype = Int64, device = ''cpu'',
                  data = [1, 0, 1, 1, 0, 1, 0, 0]\<rparr>"

definition ex_layout1 :: "(int, string) tensor" where
  "ex_layout1 = \<lparr>shape = [1, 1, 1], dtype = Int64, device = ''cpu'', data = [1]\<rparr>"

text \<open>Exact arithmetic on real elements, and stand-ins for the kernels: every kernel
  returns its first argument, dropout changes nothing.\<close>

definition ex_ext :: "(real, string) ext" where
  "ex_ext = \<lparr>elem_cast = (\<lambda>dt x. x), elem_div = (\<lambda>x c. x / c), elem_add = (+),
             elem_truth = (\<lambda>x. x \<noteq> 0), additive_keep = 0, additive_drop = - 1000000,
             matmul_call = (\<lambda>op a b. Some a),
             softmax_call = (\<lambda>op x scale c. Some x),
             dropout_call = (\<lambda>p x. x)\<rparr>"

text \<open>An instance with a single block of size 16, as \<^verbatim>\<open>__init__\<close> leaves it.\<close>

definition ex_self :: "string BlockSparseAttention" where
  "ex_self =
     \<lparr>causal = False, attn_drop = 0, layout = ex_layout1, block_size = 16,
      requires_head_dimension = True, requires_same_k_q_dimensions = True,
      supports_attention_mask = True, supports_key_padding_mask = False,
      sparse_dot_sdd = None, sparse_dot_dsd = None, sparse_softmax = None,
      to_gather = None, broadcast_to_gather = None\<rparr>"

text \<open>A query of batch size 1 with 1 head, 16 positions and head dimension 4, on the
  given device and of the given dtype; it serves as key and value too.\<close>

definition ex_q :: "string \<Rightarrow> dtype \<Rightarrow> (real, string) tensor" where
  "ex_q dev dt = \<lparr>shape = [1, 1, 16, 4], dtype = dt, device = dev,
                   data = map real [0..<64]\<rparr>"

text \<open>A mask whose batch size (2) is not that of the query (1).\<close>

definition ex_mask_bad :: "(real, string) tensor" where
  "ex_mask_bad = \<lparr>shape = [2, 1, 1, 16], dtype = Float32, device = ''cuda:0'',
                   data = replicate 32 0\<rparr>"

text \<open>A mask of shape (1, 1, 1, 32) that keeps the first 16 positions and drops the
  rest.\<close>

definition ex_mask32 :: "(real, string) tensor" where
  "ex_mask32 = \<lparr>shape = [1, 1, 1, 32], dtype = Float16, device = ''cuda:0'',
                 data = replicate 16 0 @ replicate 16 (- 1000000)\<rparr>"

text \<open>An instance with kernels for the layout with two heads of two by two blocks.\<close>

definition ex_self3 :: "string BlockSparseAttention" where
  "ex_self3 = fst (create_triton_kernels (ex_self\<lparr>layout := ex_layout3\<rparr>) ''cuda:0'')"

text \<open>The instance \<open>ex_self\<close> after its kernels were created for a device.\<close>

definition ex_bound :: "string \<Rightarrow> string BlockSparseAttention" where
  "ex_bound dev = fst (create_triton_kernels ex_self dev)"

text \<open>A key of 32 positions, which is not the sequence length of \<open>ex_q\<close>.\<close>

definition ex_k_long :: "(real, string) tensor" where
  "ex_k_long = \<lparr>shape = [1, 1, 32, 4], dtype = Float32, device = ''cuda:0'',
                 data = map real [0..<128]\<rparr>"

text \<open>For the store: stand-ins for the kernels where \<open>sparse_dot_sdd\<close> returns a small
  tensor of scores and \<open>sparse_dot_dsd\<close> its second argument, a float16 mask of shape
  (1, 1, 1, 16) that keeps the first 8 positions, the scores with that mask added, and a
  store that holds a float16 query at address 0 and the mask at address 1.\<close>

definition ex_scores :: "(real, string) tensor" where
  "ex_scores = \<lparr>shape = [1, 1, 1, 16], dtype = Float16, device = ''cuda:0'', data = replicate 16 1\<rparr>"

definition ex_ext_scores :: "(real, string) ext" where
  "ex_ext_scores = ex_ext\<lparr>matmul_call := (\<lambda>op a b. if mm_mode op = ''sdd'' then Some ex_scores else Some b)\<rparr>"

definition ex_mask16 :: "(real, string) tensor" where
  "ex_mask16 = \<lparr>shape = [1, 1, 1, 16], dtype = Float16, device = ''cuda:0'',
                 data = replicate 8 0 @ replicate 8 (- 1000000)\<rparr>"

definition ex_masked_scores :: "(real, string) tensor" where
  "ex_masked_scores = \<lparr>shape = [1, 1, 1, 16], dtype = Float16, device = ''cuda:0'',
                        data = [1, 1, 1, 1, 1, 1, 1, 1, - 999999, - 999999, - 999999, - 999999,
                                - 999999, - 999999, - 999999, - 999999]\<rparr>"

definition ex_store :: "(real, string) store" where
  "ex_store = [ex_q ''cuda:0'' Float16, ex_mask16]"


section \<open>Construction\<close>

text \<open>
  C7. With a dropout probability in [0, 1], construction succeeds for every block size
  in {16, 32, 64, 128} and yields an instance with that block size and no kernels yet;
  for every other block size it fails with the assertion on the block size, at
  construction, whatever the other arguments.
\<close>

theorem init_block_size:
  "(block_size0 \<in> {16, 32, 64, 128} \<and> 0 \<le> p \<and> p \<le> 1 \<longrightarrow>
      (\<exists>self. snd (BlockSparseAttention_init l block_size0 p n c) = Inr self \<and>
              block_size self = block_size0 \<and> sparse_dot_sdd self = None)) \<and>
   (block_size0 \<notin> {16, 32, 64, 128} \<longrightarrow>
      snd (BlockSparseAttention_init l block_size0 p n c) = Inl (AssertionError BlockSizeSupported))"
  by (auto simp: BlockSparseAttention_init_def Let_def split: prod.splits)

theorem init_block_size_witness:
  "(\<exists>self. snd (BlockSparseAttention_init ex_layout3 128 0 2 False) = Inr self \<and>
           block_size self = 128 \<and> sparse_dot_sdd self = None) \<and>
   snd (BlockSparseAttention_init ex_layout3 43 0 2 False) = Inl (AssertionError BlockSizeSupported)"
  using init_block_size [of 128 0 ex_layout3 2 False] init_block_size [of 43 0 ex_layout3 2 False]
  by simp

lemma take_drop_concat_replicate:
  "h < n \<Longrightarrow> take (length xs) (drop (h * length xs) (concat (replicate n xs))) = xs"
proof (induction n arbitrary: h)
  case 0
  then show ?case by simp
next
  case (Suc n)
  show ?case
  proof (cases h)
    case 0
    then show ?thesis by simp
  next
    case (Suc h')
    with Suc.prems have "h' < n" by simp
    from Suc.IH [OF this] show ?thesis using Suc by simp
  qed
qed

lemma head_slice_unsqueeze_expand:
  assumes "well_formed t" "h < n"
  shows "head_slice h (unsqueeze_expand n t) = t"
  using assms take_drop_concat_replicate [of h n "data t"]
  by (simp add: head_slice_def unsqueeze_expand_def well_formed_def Let_def)

text \<open>
  C8. When construction succeeds on a layout with two dimensions, the stored layout has
  the head dimension \<open>num_heads\<close> in front, each of its head slices is the layout that was
  passed (for a layout that holds as many elements as its shape says), and the three
  warnings were logged; on a layout with three dimensions the stored layout is the one
  passed and nothing was logged.
\<close>

theorem init_layout:
  assumes "BlockSparseAttention_init l block_size0 p n c = (w, Inr self)"
  shows "(length (shape l) = 2 \<longrightarrow>
            shape (layout self) = n # shape l \<and>
            (well_formed l \<longrightarrow> (\<forall>h<n. head_slice h (layout self) = l)) \<and>
            w = [LayoutLacksHeadDimension, AssumingSameLayout, NewLayoutDimensions (n # shape l)]) \<and>
         (length (shape l) = 3 \<longrightarrow> layout self = l \<and> w = [])"
proof (cases "length (shape l) = 2")
  case True
  with assms have "layout self = unsqueeze_expand n l"
    and "w = [LayoutLacksHeadDimension, AssumingSameLayout, NewLayoutDimensions (n # shape l)]"
    by (auto simp: BlockSparseAttention_init_def Let_def unsqueeze_expand_def split: if_splits)
  with True show ?thesis
    by (simp add: head_slice_unsqueeze_expand) (simp add: unsqueeze_expand_def)
next
  case False
  with assms have "layout self = l" and "w = []"
    by (auto simp: BlockSparseAttention_init_def Let_def split: if_splits)
  with False show ?thesis by simp
qed

theorem init_layout_witness:
  "shape (layout (projr (snd (BlockSparseAttention_init ex_layout2 16 0 3 False)))) = [3, 2, 2] \<and>
   head_slice 2 (layout (projr (snd (BlockSparseAttention_init ex_layout2 16 0 3 False)))) = ex_layout2 \<and>
   fst (BlockSparseAttention_init ex_layout2 16 0 3 False) =
     [LayoutLacksHeadDimension, AssumingSameLayout, NewLayoutDimensions [3, 2, 2]] \<and>
   layout (projr (snd (BlockSparseAttention_init ex_layout3 16 0 3 False))) = ex_layout3 \<and>
   fst (BlockSparseAttention_init ex_layout3 16 0 3 False) = []"
proof -
  have a: "BlockSparseAttention_init ex_layout2 16 0 3 False =
      (fst (BlockSparseAttention_init ex_layout2 16 0 3 False),
       Inr (projr (snd (BlockSparseAttention_init ex_layout2 16 0 3 False))))"
    by (simp add: BlockSparseAttention_init_def ex_layout2_def Let_def)
  have b: "BlockSparseAttention_init ex_layout3 16 0 3 False =
      (fst (BlockSparseAttention_init ex_layout3 16 0 3 False),
       Inr (projr (snd (BlockSparseAttention_init ex_layout3 16 0 3 False))))"
    by (simp add: BlockSparseAttention_init_def ex_layout3_def Let_def)
  have wf: "well_formed ex_layout2"
    by (simp add: well_formed_def ex_layout2_def)
  have s2: "length (shape ex_layout2) = 2" "shape ex_layout2 = [2, 2]"
    by (simp_all add: ex_layout2_def)
  have s3: "length (shape ex_layout3) = 3"
    by (simp add: ex_layout3_def)
  from init_layout [OF a] init_layout [OF b] wf s2 s3 show ?thesis
    by simp
qed


section \<open>The gather indices\<close>

lemma upt_mult_concat:
  "[0..<n * m] = concat (map (\<lambda>a. map (\<lambda>b. a * m + b) [0..<m]) [0..<n])"
proof (induction n)
  case 0
  then show ?case by simp
next
  case (Suc n)
  have e: "Suc n * m = n * m + m" by simp
  have "[0..<Suc n * m] = [0..<n * m] @ [n * m..<n * m + m]"
    by (subst e) (rule upt_add_eq_append, simp)
  moreover have "map (\<lambda>b. b + n * m) [0..<m] = [n * m..<m + n * m]"
    by (rule map_add_upt)
  then have "[n * m..<n * m + m] = map (\<lambda>b. n * m + b) [0..<m]"
    by (simp add: add.commute)
  ultimately show ?case using Suc by simp
qed

lemma gather_loop_triples:
  "gather_loop ncb (map (\<lambda>(h, i, j). [h, i, j]) ts) tg bg =
     (tg @ map (\<lambda>(h, i, j). h * ncb + j) ts, bg @ map (\<lambda>(h, i, j). j) ts, None)"
proof (induction ts arbitrary: tg bg)
  case Nil
  then show ?case by simp
next
  case (Cons t ts)
  obtain h i j where t: "t = (h, i, j)" by (cases t) auto
  show ?case by (simp add: t Cons.IH)
qed

lemma unravel3:
  "i < R \<Longrightarrow> j < C \<Longrightarrow> unravel [H, R, C] (h * (R * C) + i * C + j) = [h, i, j]"
proof -
  assume i: "i < R" and j: "j < C"
  have "i * C + j < i * C + C" using j by simp
  also have "\<dots> = Suc i * C" by simp
  also have "\<dots> \<le> R * C" using i by (intro mult_le_mono1) simp
  finally have lt: "i * C + j < R * C" .
  then have nz: "R * C \<noteq> 0" by linarith
  have a: "(h * (R * C) + i * C + j) div (R * C) = h"
    using div_mult_self3 [OF nz, of h "i * C + j"] lt by (simp only: add.assoc div_less add_0_right)
  have b: "(h * (R * C) + i * C + j) mod (R * C) = i * C + j"
    using mod_mult_self3 [of h "R * C" "i * C + j"] lt by (simp only: add.assoc mod_less)
  have c: "(i * C + j) div C = i" using j by simp
  show ?thesis using j by (simp add: a b c)
qed

lemma map_filter_concat:
  "map f (filter P xs) = concat (map (\<lambda>x. if P x then [f x] else []) xs)"
  by (induction xs) auto

lemma map_if_distrib:
  "map f (if b then xs else ys) = (if b then map f xs else map f ys)"
  by simp

lemma nonzero_active_triples:
  assumes s: "shape t = [H, R, C]" and wf: "well_formed t"
  shows "nonzero t = map (\<lambda>(h, i, j). [h, i, j]) (active_triples t)"
proof -
  have len: "length (data t) = H * (R * C)"
    using s wf by (simp add: well_formed_def)
  have idx: "[0..<H * (R * C)] =
      concat (map (\<lambda>h. concat (map (\<lambda>i. map (\<lambda>j. h * (R * C) + i * C + j) [0..<C]) [0..<R])) [0..<H])"
    by (simp add: upt_mult_concat [of H "R * C"] upt_mult_concat [of R C] map_concat o_def add.assoc)
  have inner: "(if data t ! (h * (R * C) + i * C + j) \<noteq> 0
                then [unravel [H, R, C] (h * (R * C) + i * C + j)] else []) =
               (if data t ! (h * (R * C) + i * C + j) \<noteq> 0 then [[h, i, j]] else [])"
    if "i \<in> set [0..<R]" "j \<in> set [0..<C]" for h i j
    using that by (simp add: unravel3 del: unravel.simps)
  have "nonzero t =
      concat (map (\<lambda>h. concat (map (\<lambda>i. concat (map (\<lambda>j.
        if data t ! (h * (R * C) + i * C + j) \<noteq> 0
        then [unravel [H, R, C] (h * (R * C) + i * C + j)] else []) [0..<C])) [0..<R])) [0..<H])"
    unfolding nonzero_def s len idx
    by (simp add: filter_concat map_concat filter_map o_def map_filter_concat map_if_distrib
          del: unravel.simps cong: if_cong)
  also have "\<dots> =
      concat (map (\<lambda>h. concat (map (\<lambda>i. concat (map (\<lambda>j.
        if data t ! (h * (R * C) + i * C + j) \<noteq> 0
        then [[h, i, j]] else []) [0..<C])) [0..<R])) [0..<H])"
    by (intro arg_cong [where f = concat] map_cong refl inner)
  also have "\<dots> = map (\<lambda>(h, i, j). [h, i, j]) (active_triples t)"
    unfolding active_triples_def s
    by (simp add: map_concat o_def map_if_distrib cong: if_cong)
  finally show ?thesis .
qed

lemma create_triton_kernels_gather:
  assumes s: "shape (layout self) = [H, R, C]" and wf: "well_formed (layout self)"
  shows "snd (create_triton_kernels self dev) = None"
    and "to_gather (fst (create_triton_kernels self dev)) =
           Some (map (\<lambda>(h, i, j). h * C + j) (active_triples (layout self)))"
    and "broadcast_to_gather (fst (create_triton_kernels self dev)) =
           Some (map (\<lambda>(h, i, j). j) (active_triples (layout self)))"
  by (simp_all add: create_triton_kernels_def Let_def s shape_at_def
        nonzero_active_triples [OF s wf] gather_loop_triples)

text \<open>
  C5. For a layout with three dimensions (heads, row blocks, \<open>C\<close> column blocks) that
  holds as many elements as its shape says, \<^verbatim>\<open>create_triton_kernels\<close> raises nothing and
  leaves in \<open>to_gather\<close> the values \<open>head * C + col\<close> and in \<open>broadcast_to_gather\<close> the values
  \<open>col\<close> of the active (head, row, col) triples, both in the order of the triples: entry
  \<open>idx\<close> of each list belongs to the active block \<open>idx\<close>.
\<close>

theorem gather_indices:
  assumes s: "shape (layout self) = [H, R, C]" and wf: "well_formed (layout self)"
  shows "snd (create_triton_kernels self dev) = None \<and>
         to_gather (fst (create_triton_kernels self dev)) =
           Some (map (\<lambda>(h, i, j). h * C + j) (active_triples (layout self))) \<and>
         broadcast_to_gather (fst (create_triton_kernels self dev)) =
           Some (map (\<lambda>(h, i, j). j) (active_triples (layout self))) \<and>
         (\<forall>idx < length (active_triples (layout self)).
            (case active_triples (layout self) ! idx of
               (h, i, j) \<Rightarrow>
                 the (to_gather (fst (create_triton_kernels self dev))) ! idx = h * C + j \<and>
                 the (broadcast_to_gather (fst (create_triton_kernels self dev))) ! idx = j))"
  by (simp add: create_triton_kernels_gather [OF s wf] split: prod.splits)

theorem gather_indices_witness:
  "shape (layout (ex_self\<lparr>layout := ex_layout3\<rparr>)) = [2, 2, 2] \<and>
   well_formed (layout (ex_self\<lparr>layout := ex_layout3\<rparr>)) \<and>
   active_triples ex_layout3 = [(0, 0, 0), (0, 1, 0), (0, 1, 1), (1, 0, 1)] \<and>
   snd (create_triton_kernels (ex_self\<lparr>layout := ex_layout3\<rparr>) ''cuda:0'') = None \<and>
   to_gather (fst (create_triton_kernels (ex_self\<lparr>layout := ex_layout3\<rparr>) ''cuda:0'')) =
     Some [0, 0, 1, 3] \<and>
   broadcast_to_gather (fst (create_triton_kernels (ex_self\<lparr>layout := ex_layout3\<rparr>) ''cuda:0'')) =
     Some [0, 0, 1, 1]"
proof -
  have s: "shape (layout (ex_self\<lparr>layout := ex_layout3\<rparr>)) = [2, 2, 2]"
    and wf: "well_formed (layout (ex_self\<lparr>layout := ex_layout3\<rparr>))"
    by (simp_all add: ex_layout3_def well_formed_def)
  have t: "active_triples ex_layout3 = [(0, 0, 0), (0, 1, 0), (0, 1, 1), (1, 0, 1)]"
    by (simp add: active_triples_def ex_layout3_def upt_rec)
  from gather_indices [OF s wf, of "''cuda:0''"] s wf t show ?thesis
    by simp
qed


section \<open>The outcomes of \<^verbatim>\<open>forward\<close>\<close>

lemma check_shapes_not_multiple:
  "check_shapes self qs ks \<noteq> Some (AssertionError (SeqMultiple n b))"
  by (auto simp: check_shapes_def split: option.splits if_splits)

lemma weighted_values_cases:
  obtains
    (no_softmax) "sparse_softmax self = None"
      "weighted_values ext self x v scale dt = ([], Inl AttributeError)"
  | (softmax_raised) sm where "sparse_softmax self = Some sm"
      "weighted_values ext self x v scale dt =
         ([SparseSoftmax sm x scale (causal self)], Inl KernelError)"
  | (no_dsd) sm where "sparse_softmax self = Some sm"
      "weighted_values ext self x v scale dt =
         ([SparseSoftmax sm x scale (causal self)], Inl AttributeError)"
  | (dsd_raised) sm x1 dsd where "sparse_softmax self = Some sm"
      "softmax_call ext sm x scale (causal self) = Some x1" "sparse_dot_dsd self = Some dsd"
      "weighted_values ext self x v scale dt =
         ([SparseSoftmax sm x scale (causal self),
           SparseDotDSD dsd (dropout_call ext (attn_drop self) x1) v], Inl KernelError)"
  | (returned) sm x1 dsd a where "sparse_softmax self = Some sm"
      "softmax_call ext sm x scale (causal self) = Some x1" "sparse_dot_dsd self = Some dsd"
      "matmul_call ext dsd (dropout_call ext (attn_drop self) x1) v = Some a"
      "weighted_values ext self x v scale dt =
         ([SparseSoftmax sm x scale (causal self),
           SparseDotDSD dsd (dropout_call ext (attn_drop self) x1) v],
          Inr (to_dtype ext dt a))"
  unfolding weighted_values_def bind_log_def call_softmax_def call_dsd_def kernel_result_def Let_def
  by (cases "sparse_softmax self"; cases "sparse_dot_dsd self";
      cases "softmax_call ext (the (sparse_softmax self)) x scale (causal self)";
      cases "matmul_call ext (the (sparse_dot_dsd self))
               (dropout_call ext (attn_drop self)
                  (the (softmax_call ext (the (sparse_softmax self)) x scale (causal self)))) v")
     simp_all

lemma masked_scores_cases:
  obtains
    (no_dim) "shape_at (shape q) (- 1) = None"
      "masked_scores ext self q k m = ([], Inl IndexError)"
  | (no_sdd) "sparse_dot_sdd self = None"
      "masked_scores ext self q k m = ([], Inl AttributeError)"
  | (sdd_raised) d sdd where "shape_at (shape q) (- 1) = Some d" "sparse_dot_sdd self = Some sdd"
      "masked_scores ext self q k m =
         ([SparseDotSDD sdd (div_scalar ext q (sqrt (real d))) k], Inl KernelError)"
  | (mask_failed) d sdd x e where "shape_at (shape q) (- 1) = Some d" "sparse_dot_sdd self = Some sdd"
      "matmul_call ext sdd (div_scalar ext q (sqrt (real d))) k = Some x"
      "apply_mask ext self (div_scalar ext q (sqrt (real d))) x m = Inl e"
      "masked_scores ext self q k m =
         ([SparseDotSDD sdd (div_scalar ext q (sqrt (real d))) k], Inl e)"
  | (scored) d sdd x x1 where "shape_at (shape q) (- 1) = Some d" "sparse_dot_sdd self = Some sdd"
      "matmul_call ext sdd (div_scalar ext q (sqrt (real d))) k = Some x"
      "apply_mask ext self (div_scalar ext q (sqrt (real d))) x m = Inr x1"
      "masked_scores ext self q k m =
         ([SparseDotSDD sdd (div_scalar ext q (sqrt (real d))) k], Inr x1)"
  unfolding masked_scores_def bind_log_def call_sdd_def lift_index_def kernel_result_def Let_def
  by (cases "shape_at (shape q) (- 1)"; cases "sparse_dot_sdd self";
      cases "matmul_call ext (the (sparse_dot_sdd self))
               (div_scalar ext q (sqrt (real (the (shape_at (shape q) (- 1)))))) k";
      cases "apply_mask ext self (div_scalar ext q (sqrt (real (the (shape_at (shape q) (- 1))))))
               (the (matmul_call ext (the (sparse_dot_sdd self))
               (div_scalar ext q (sqrt (real (the (shape_at (shape q) (- 1)))))) k)) m")
     simp_all


lemma attention_cases:
  obtains
    (check_failed) e where "check_shapes self (shape q) (shape k) = Some e"
      "attention ext self q k v att_mask scale = (mask_warnings att_mask, Inl e)"
  | (scores_failed) l e where "check_shapes self (shape q) (shape k) = None"
      "masked_scores ext self (half ext q) (half ext k) (prepared_mask ext att_mask) = (l, Inl e)"
      "attention ext self q k v att_mask scale = (mask_warnings att_mask @ l, Inl e)"
  | (scored) l x l' r where "check_shapes self (shape q) (shape k) = None"
      "masked_scores ext self (half ext q) (half ext k) (prepared_mask ext att_mask) = (l, Inr x)"
      "weighted_values ext self x (half ext v) scale (dtype q) = (l', r)"
      "attention ext self q k v att_mask scale = (mask_warnings att_mask @ l @ l', r)"
proof -
  obtain l r where ms:
    "masked_scores ext self (half ext q) (half ext k) (prepared_mask ext att_mask) = (l, r)"
    by (cases "masked_scores ext self (half ext q) (half ext k) (prepared_mask ext att_mask)")
  have conv: "convert_mask ext att_mask =
      (mask_warnings att_mask,
       Inr (map_option (\<lambda>m. if dtype m = Bool then bool_mask_to_additive ext m else m) att_mask))"
    by (cases att_mask)
       (simp_all add: convert_mask_def mask_warnings_def bind_log_def update_mask_type_def)
  have prep: "map_option (half ext)
      (map_option (\<lambda>m. if dtype m = Bool then bool_mask_to_additive ext m else m) att_mask) =
      prepared_mask ext att_mask"
    by (cases att_mask) (simp_all add: prepared_mask_def)
  show ?thesis
  proof (cases "check_shapes self (shape q) (shape k)")
    case (Some e)
    then have "attention ext self q k v att_mask scale = (mask_warnings att_mask, Inl e)"
      by (simp add: attention_def conv bind_log_def lift_check_def)
    with Some show ?thesis by (rule check_failed)
  next
    case None
    show ?thesis
    proof (cases r)
      case (Inl e)
      with None ms have "attention ext self q k v att_mask scale = (mask_warnings att_mask @ l, Inl e)"
        by (simp add: attention_def conv prep bind_log_def lift_check_def Let_def)
      with None ms Inl show ?thesis by (auto intro: scores_failed)
    next
      case (Inr x)
      obtain l' r' where wv: "weighted_values ext self x (half ext v) scale (dtype q) = (l', r')"
        by (cases "weighted_values ext self x (half ext v) scale (dtype q)")
      with None ms Inr
      have "attention ext self q k v att_mask scale = (mask_warnings att_mask @ l @ l', r')"
        by (simp add: attention_def conv prep bind_log_def lift_check_def Let_def)
      with None ms Inr wv show ?thesis by (auto intro: scored)
    qed
  qed
qed


lemma gather_loop_error:
  "gather_loop n cs tg bg = (tg', bg', Some e) \<Longrightarrow> e = ValueError"
  by (induction n cs tg bg rule: gather_loop.induct) (auto split: list.splits)

lemma create_triton_kernels_error:
  "create_triton_kernels self dev = (self1, Some e) \<Longrightarrow> e = IndexError \<or> e = ValueError"
  by (auto simp: create_triton_kernels_def Let_def split: option.splits prod.splits
           dest: gather_loop_error)

lemma check_shapes_assertion:
  "check_shapes self qs ks = Some (AssertionError a) \<Longrightarrow>
     a = SameKQ \<or> a = QLayoutConsistent \<or> a = KLayoutConsistent"
  by (auto simp: check_shapes_def split: option.splits if_splits)

lemma block_mask_error:
  "block_mask self m = Inl e \<Longrightarrow>
     e = IndexError \<or> e = ZeroDivisionError \<or> e = RuntimeError \<or> e = AttributeError"
  by (auto simp: block_mask_def split: option.splits if_splits prod.splits)

lemma apply_mask_error:
  "apply_mask ext self q x m = Inl e \<Longrightarrow>
     e = AssertionError MaskShape \<or> e = IndexError \<or> e = ZeroDivisionError \<or>
     e = RuntimeError \<or> e = AttributeError"
  by (auto simp: apply_mask_def split: option.splits bool.splits sum.splits
           dest: block_mask_error)

lemma forward_cases:
  obtains
    (create_failed) self1 e where "sparse_dot_sdd self = None"
      "create_triton_kernels self (device q) = (self1, Some e)"
      "forward ext self q k v att_mask scale = (self1, [CreateKernels (device q)], Inl e)"
  | (created) self1 l r where "sparse_dot_sdd self = None"
      "create_triton_kernels self (device q) = (self1, None)"
      "attention ext self1 q k v att_mask scale = (l, r)"
      "forward ext self q k v att_mask scale = (self1, CreateKernels (device q) # l, r)"
  | (cached) l r where "sparse_dot_sdd self \<noteq> None"
      "attention ext self q k v att_mask scale = (l, r)"
      "forward ext self q k v att_mask scale = (self, l, r)"
proof (cases "sparse_dot_sdd self")
  case None
  obtain self1 err where c: "create_triton_kernels self (device q) = (self1, err)"
    by (cases "create_triton_kernels self (device q)")
  show ?thesis
  proof (cases err)
    case None2: None
    obtain l r where a: "attention ext self1 q k v att_mask scale = (l, r)"
      by (cases "attention ext self1 q k v att_mask scale")
    from None c None2 a
    have "forward ext self q k v att_mask scale = (self1, CreateKernels (device q) # l, r)"
      by (simp add: forward_def ensure_kernels_def)
    with None c None2 a show ?thesis by (auto intro: created)
  next
    case (Some e)
    with None c
    have "forward ext self q k v att_mask scale = (self1, [CreateKernels (device q)], Inl e)"
      by (simp add: forward_def ensure_kernels_def)
    with None c Some show ?thesis by (auto intro: create_failed)
  qed
next
  case (Some op)
  obtain l r where a: "attention ext self q k v att_mask scale = (l, r)"
    by (cases "attention ext self q k v att_mask scale")
  with Some have "forward ext self q k v att_mask scale = (self, l, r)"
    by (simp add: forward_def ensure_kernels_def)
  with Some a show ?thesis by (auto intro: cached)
qed

lemma mask_warnings_no_kernel_call [simp]:
  "filter is_kernel_call (mask_warnings att_mask) = []"
  by (simp add: mask_warnings_def split: option.splits)

text \<open>The outcomes of lines 171-235, by the kernel calls made.\<close>

lemma attention_outcomes:
  fixes ext self q k v att_mask scale
  defines "w \<equiv> mask_warnings att_mask"
  defines "q1 \<equiv> \<lambda>d. div_scalar ext (half ext q) (sqrt (real d))"
  obtains
    (before_kernels) e where
      "attention ext self q k v att_mask scale = (w, Inl e)"
      "check_shapes self (shape q) (shape k) = Some e \<or> e = IndexError \<or> e = AttributeError"
  | (sdd_failed) d sdd where
      "shape_at (shape (half ext q)) (- 1) = Some d" "sparse_dot_sdd self = Some sdd"
      "check_shapes self (shape q) (shape k) = None"
      "attention ext self q k v att_mask scale =
         (w @ [SparseDotSDD sdd (q1 d) (half ext k)], Inl KernelError)"
  | (mask_rejected) d sdd x0 e where
      "shape_at (shape (half ext q)) (- 1) = Some d" "sparse_dot_sdd self = Some sdd"
      "check_shapes self (shape q) (shape k) = None"
      "apply_mask ext self (q1 d) x0 (prepared_mask ext att_mask) = Inl e"
      "attention ext self q k v att_mask scale =
         (w @ [SparseDotSDD sdd (q1 d) (half ext k)], Inl e)"
  | (softmax_missing) d sdd x0 x where
      "shape_at (shape (half ext q)) (- 1) = Some d" "sparse_dot_sdd self = Some sdd"
      "check_shapes self (shape q) (shape k) = None"
      "apply_mask ext self (q1 d) x0 (prepared_mask ext att_mask) = Inr x"
      "attention ext self q k v att_mask scale =
         (w @ [SparseDotSDD sdd (q1 d) (half ext k)], Inl AttributeError)"
  | (after_softmax) d sdd x0 sm x e where
      "shape_at (shape (half ext q)) (- 1) = Some d" "sparse_dot_sdd self = Some sdd"
      "check_shapes self (shape q) (shape k) = None"
      "apply_mask ext self (q1 d) x0 (prepared_mask ext att_mask) = Inr x"
      "attention ext self q k v att_mask scale =
         (w @ [SparseDotSDD sdd (q1 d) (half ext k), SparseSoftmax sm x scale (causal self)], Inl e)"
      "e = KernelError \<or> e = AttributeError"
  | (after_dsd) d sdd x0 sm x dsd y where
      "shape_at (shape (half ext q)) (- 1) = Some d" "sparse_dot_sdd self = Some sdd"
      "check_shapes self (shape q) (shape k) = None"
      "apply_mask ext self (q1 d) x0 (prepared_mask ext att_mask) = Inr x"
      "attention ext self q k v att_mask scale =
         (w @ [SparseDotSDD sdd (q1 d) (half ext k), SparseSoftmax sm x scale (causal self),
               SparseDotDSD dsd y (half ext v)], Inl KernelError)"
  | (completed) d sdd x0 sm x dsd y a where
      "shape_at (shape (half ext q)) (- 1) = Some d" "sparse_dot_sdd self = Some sdd"
      "check_shapes self (shape q) (shape k) = None"
      "apply_mask ext self (q1 d) x0 (prepared_mask ext att_mask) = Inr x"
      "matmul_call ext dsd y (half ext v) = Some a"
      "attention ext self q k v att_mask scale =
         (w @ [SparseDotSDD sdd (q1 d) (half ext k), SparseSoftmax sm x scale (causal self),
               SparseDotDSD dsd y (half ext v)], Inr (to_dtype ext (dtype q) a))"
proof (cases rule: attention_cases [of self q k ext v att_mask scale])
  case (check_failed e)
  show ?thesis
    by (rule before_kernels [of e]) (simp_all add: check_failed w_def)
next
  case sf: (scores_failed l e)
  from sf(2) show ?thesis
  proof (cases rule: masked_scores_cases [of "half ext q" ext self "half ext k" "prepared_mask ext att_mask"])
    case no_dim
    with sf show ?thesis by (intro before_kernels [of e]) (simp_all add: w_def)
  next
    case no_sdd
    with sf show ?thesis by (intro before_kernels [of e]) (simp_all add: w_def)
  next
    case (sdd_raised d sdd)
    with sf show ?thesis by (intro sdd_failed [of d sdd]) (simp_all add: w_def q1_def)
  next
    case (mask_failed d sdd x e')
    with sf show ?thesis by (intro mask_rejected [of d sdd x e]) (simp_all add: w_def q1_def)
  next
    case (scored d sdd x x1)
    with sf show ?thesis by simp
  qed
next
  case sc: (scored l x l' r')
  from sc(2) show ?thesis
  proof (cases rule: masked_scores_cases [of "half ext q" ext self "half ext k" "prepared_mask ext att_mask"])
    case no_dim
    with sc show ?thesis by simp
  next
    case no_sdd
    with sc show ?thesis by simp
  next
    case (sdd_raised d sdd)
    with sc show ?thesis by simp
  next
    case (mask_failed d sdd x e')
    with sc show ?thesis by simp
  next
    case ms: (scored d sdd x0 x1)
    with sc have l: "l = [SparseDotSDD sdd (q1 d) (half ext k)]"
      and x: "x1 = x" by (simp_all add: q1_def)
    from sc(3) show ?thesis
    proof (cases rule: weighted_values_cases [of self ext x "half ext v" scale "dtype q"])
      case no_softmax
      with sc ms l x show ?thesis
        by (intro softmax_missing [of d sdd x0 x]) (simp_all add: w_def q1_def)
    next
      case (softmax_raised sm)
      with sc ms l x show ?thesis
        by (intro after_softmax [of d sdd x0 x sm KernelError]) (simp_all add: w_def q1_def)
    next
      case (no_dsd sm)
      with sc ms l x show ?thesis
        by (intro after_softmax [of d sdd x0 x sm AttributeError]) (simp_all add: w_def q1_def)
    next
      case (dsd_raised sm x1 dsd)
      with sc ms l x show ?thesis
        by (intro after_dsd [of d sdd x0 x sm dsd "dropout_call ext (attn_drop self) x1"])
           (simp_all add: w_def q1_def)
    next
      case (returned sm x1 dsd a)
      with sc ms l x show ?thesis
        by (intro completed [of d sdd x0 x dsd "dropout_call ext (attn_drop self) x1" a sm])
           (simp_all add: w_def q1_def)
    qed
  qed
qed


lemma shape_half [simp]: "shape (half ext t) = shape t"
  by (simp add: half_def to_dtype_def)

lemma dtype_half [simp]: "dtype (half ext t) = Float16"
  by (simp add: half_def to_dtype_def)

lemma dtype_to_dtype [simp]: "dtype (to_dtype ext dt t) = dt"
  by (simp add: to_dtype_def)

lemma shape_div_scalar [simp]: "shape (div_scalar ext t c) = shape t"
  by (simp add: div_scalar_def)

lemma dtype_div_scalar [simp]: "dtype (div_scalar ext t c) = dtype t"
  by (simp add: div_scalar_def)

lemma shape_bool_mask_to_additive [simp]: "shape (bool_mask_to_additive ext m) = shape m"
  by (simp add: bool_mask_to_additive_def)

lemma invalid_mask_shape_check:
  "invalid_mask_shape ms qs \<Longrightarrow> mask_shape_check ms qs = Some False"
  by (auto simp: invalid_mask_shape_def mask_shape_check_def shape_at_def
           split: list.splits)

lemma apply_mask_invalid:
  assumes "invalid_mask_shape (shape m) (shape q)"
  shows "apply_mask ext self (div_scalar ext (half ext q) c) x (prepared_mask ext (Some m)) =
           Inl (AssertionError MaskShape)"
  using invalid_mask_shape_check [OF assms]
  by (simp add: apply_mask_def prepared_mask_def)

lemma attention_not_multiple:
  "snd (attention ext self q k v att_mask scale) \<noteq> Inl (AssertionError (SeqMultiple n b))"
proof (cases rule: attention_outcomes [of ext self q k v att_mask scale])
  case (before_kernels e)
  then show ?thesis using check_shapes_not_multiple [of self "shape q" "shape k" n b] by auto
next
  case (mask_rejected d sdd x0 e)
  then show ?thesis using apply_mask_error [OF mask_rejected(4)] by auto
qed auto

lemma forward_attention:
  obtains
    (create_failed) self1 e where "sparse_dot_sdd self = None"
      "forward ext self q k v att_mask scale = (self1, [CreateKernels (device q)], Inl e)"
      "e = IndexError \<or> e = ValueError"
  | (attended) self1 l0 where
      "forward ext self q k v att_mask scale =
         (self1, l0 @ fst (attention ext self1 q k v att_mask scale),
          snd (attention ext self1 q k v att_mask scale))"
      "filter is_kernel_call l0 = []"
      "self1 = (if sparse_dot_sdd self = None
                then fst (create_triton_kernels self (device q)) else self)"
      "l0 = (if sparse_dot_sdd self = None then [CreateKernels (device q)] else [])"
proof (cases rule: forward_cases [of self q ext k v att_mask scale])
  case (create_failed self1 e)
  then show ?thesis
    using create_triton_kernels_error [OF create_failed(2)]
    by (intro that(1) [of self1 e]) simp_all
next
  case (created self1 l r)
  then show ?thesis
    by (intro that(2) [of self1 "[CreateKernels (device q)]"]) simp_all
next
  case (cached l r)
  then show ?thesis
    by (intro that(2) [of self "[]"]) auto
qed

text \<open>
  C9. The assertion that the sequence length is a multiple of the block size never
  fails: the checks of lines 174-189 never yield its error, since they reach it only
  when the sequence length equals \<open>layout.shape[-2] * block_size\<close>, and no call of
  \<^verbatim>\<open>forward\<close> raises it.
\<close>

theorem multiple_assertion_unreachable:
  "check_shapes self (shape q) (shape k) \<noteq> Some (AssertionError (SeqMultiple n b)) \<and>
   snd (snd (forward ext self q k v att_mask scale)) \<noteq> Inl (AssertionError (SeqMultiple n b))"
proof -
  have "snd (snd (forward ext self q k v att_mask scale)) \<noteq> Inl (AssertionError (SeqMultiple n b))"
  proof (cases rule: forward_attention [where self = self and ext = ext and q = q and k = k
        and v = v and att_mask = att_mask and scale = scale])
    case (create_failed self1 e)
    then show ?thesis by auto
  next
    case (attended self1 l0)
    then show ?thesis using attention_not_multiple [of ext self1 q k v att_mask scale n b] by simp
  qed
  then show ?thesis by (simp add: check_shapes_not_multiple)
qed


lemma attention_assertion_order:
  assumes "attention ext self q k v att_mask scale = (evs, Inl (AssertionError a))"
  shows "(a \<noteq> MaskShape \<longrightarrow> filter is_kernel_call evs = []) \<and>
         (a = MaskShape \<longrightarrow> (\<exists>sdd q1 k1. filter is_kernel_call evs = [SparseDotSDD sdd q1 k1]))"
proof (cases rule: attention_outcomes [of ext self q k v att_mask scale])
  case (before_kernels e)
  with assms show ?thesis using check_shapes_assertion [of self "shape q" "shape k" a] by auto
next
  case (mask_rejected d sdd x0 e)
  with assms show ?thesis using apply_mask_error [OF mask_rejected(4)] by auto
qed (use assms in auto)

lemma attention_invalid_mask:
  assumes inv: "invalid_mask_shape (shape m) (shape q)"
    and att: "attention ext self q k v (Some m) scale = (evs, r)"
  shows "(\<exists>e. r = Inl e) \<and>
         (filter is_kernel_call evs = [] \<or>
          (\<exists>sdd q1 k1. filter is_kernel_call evs = [SparseDotSDD sdd q1 k1] \<and>
             (r = Inl (AssertionError MaskShape) \<or> r = Inl KernelError)))"
proof (cases rule: attention_outcomes [of ext self q k v "Some m" scale])
  case (before_kernels e)
  with att show ?thesis by auto
next
  case (sdd_failed d sdd)
  with att show ?thesis by auto
next
  case (mask_rejected d sdd x0 e)
  with att show ?thesis using apply_mask_invalid [OF inv, of ext self "sqrt (real d)" x0] by auto
next
  case (softmax_missing d sdd x0 x)
  then show ?thesis using apply_mask_invalid [OF inv, of ext self "sqrt (real d)" x0] by simp
next
  case (after_softmax d sdd x0 sm x e)
  then show ?thesis using apply_mask_invalid [OF inv, of ext self "sqrt (real d)" x0] by simp
next
  case (after_dsd d sdd x0 sm x dsd y)
  then show ?thesis using apply_mask_invalid [OF inv, of ext self "sqrt (real d)" x0] by simp
next
  case (completed d sdd x0 sm x dsd y a)
  then show ?thesis using apply_mask_invalid [OF inv, of ext self "sqrt (real d)" x0] by simp
qed

text \<open>
  C1, as amended. When \<^verbatim>\<open>forward\<close> raises an assertion error other than the one on the
  mask's shape (these are the assertions on the shapes of \<open>q\<close> and \<open>k\<close>), no kernel has been
  invoked. When it raises the assertion on the mask's shape, exactly one kernel has been
  invoked before, \<open>sparse_dot_sdd\<close>. A call with a mask of invalid shape never returns a
  result and never invokes \<open>sparse_softmax\<close> or \<open>sparse_dot_dsd\<close>: either it fails before
  any kernel call, or \<open>sparse_dot_sdd\<close> is invoked and then the call fails, with the
  assertion on the mask's shape unless the kernel itself raised.
\<close>

theorem mask_error_after_sdd:
  assumes "forward ext self q k v att_mask scale = (self1, evs, r)"
  shows "(\<forall>a. r = Inl (AssertionError a) \<longrightarrow>
            (a \<noteq> MaskShape \<longrightarrow> filter is_kernel_call evs = []) \<and>
            (a = MaskShape \<longrightarrow> (\<exists>sdd q1 k1. filter is_kernel_call evs = [SparseDotSDD sdd q1 k1]))) \<and>
         (\<forall>m. att_mask = Some m \<and> invalid_mask_shape (shape m) (shape q) \<longrightarrow>
            (\<exists>e. r = Inl e) \<and>
            (filter is_kernel_call evs = [] \<or>
             (\<exists>sdd q1 k1. filter is_kernel_call evs = [SparseDotSDD sdd q1 k1] \<and>
                (r = Inl (AssertionError MaskShape) \<or> r = Inl KernelError))))"
proof (cases rule: forward_attention [of self ext q k v att_mask scale])
  case (create_failed self0 e)
  with assms show ?thesis by auto
next
  case (attended self0 l0)
  from assms attended(1) have evs: "evs = l0 @ fst (attention ext self0 q k v att_mask scale)"
    and r: "r = snd (attention ext self0 q k v att_mask scale)" by auto
  have a: "attention ext self0 q k v att_mask scale =
      (fst (attention ext self0 q k v att_mask scale), r)" by (simp add: r)
  have 1: "(a \<noteq> MaskShape \<longrightarrow> filter is_kernel_call evs = []) \<and>
           (a = MaskShape \<longrightarrow> (\<exists>sdd q1 k1. filter is_kernel_call evs = [SparseDotSDD sdd q1 k1]))"
    if "r = Inl (AssertionError a)" for a
    using attention_assertion_order [OF a [unfolded that]] attended(2) by (simp add: evs)
  have 2: "(\<exists>e. r = Inl e) \<and>
            (filter is_kernel_call evs = [] \<or>
             (\<exists>sdd q1 k1. filter is_kernel_call evs = [SparseDotSDD sdd q1 k1] \<and>
                (r = Inl (AssertionError MaskShape) \<or> r = Inl KernelError)))"
    if "att_mask = Some m" "invalid_mask_shape (shape m) (shape q)" for m
    using attention_invalid_mask [OF that(2) a [unfolded that(1)]] attended(2)
    by (simp add: evs that(1))
  from 1 2 show ?thesis by blast
qed


lemma attention_no_create:
  "CreateKernels dev \<notin> set (fst (attention ext self q k v att_mask scale))"
  by (cases rule: attention_outcomes [of ext self q k v att_mask scale])
     (auto simp: mask_warnings_def split: option.splits if_splits)

lemma create_triton_kernels_handles:
  "sparse_dot_sdd (fst (create_triton_kernels self dev)) =
     Some \<lparr>mm_layout = layout self, mm_block = block_size self, mm_mode = ''sdd'',
           mm_trans_a = False, mm_trans_b = True, mm_device = dev\<rparr>"
  "sparse_dot_dsd (fst (create_triton_kernels self dev)) =
     Some \<lparr>mm_layout = layout self, mm_block = block_size self, mm_mode = ''dsd'',
           mm_trans_a = False, mm_trans_b = False, mm_device = dev\<rparr>"
  "sparse_softmax (fst (create_triton_kernels self dev)) =
     Some \<lparr>sm_layout = layout self, sm_block = block_size self, sm_device = dev\<rparr>"
  by (simp_all add: create_triton_kernels_def Let_def split: option.splits prod.splits)

text \<open>
  C2, as amended. On a call of \<^verbatim>\<open>forward\<close> on an instance without kernels, the kernels
  are constructed for the layout, the block size and the device of the query, and kept in
  the instance; kernels are constructed once in that call. On a call on an instance that
  has kernels, the instance is left as it is and no kernel is constructed, whatever the
  device of the query.
\<close>

theorem kernel_binding:
  assumes "forward ext self q k v att_mask scale = (self1, evs, r)"
  shows "(sparse_dot_sdd self = None \<longrightarrow>
            sparse_dot_sdd self1 =
              Some \<lparr>mm_layout = layout self, mm_block = block_size self, mm_mode = ''sdd'',
                    mm_trans_a = False, mm_trans_b = True, mm_device = device q\<rparr> \<and>
            sparse_dot_dsd self1 =
              Some \<lparr>mm_layout = layout self, mm_block = block_size self, mm_mode = ''dsd'',
                    mm_trans_a = False, mm_trans_b = False, mm_device = device q\<rparr> \<and>
            sparse_softmax self1 =
              Some \<lparr>sm_layout = layout self, sm_block = block_size self, sm_device = device q\<rparr> \<and>
            (\<exists>rest. evs = CreateKernels (device q) # rest \<and>
                    (\<forall>dev. CreateKernels dev \<notin> set rest))) \<and>
         (sparse_dot_sdd self \<noteq> None \<longrightarrow>
            self1 = self \<and> (\<forall>dev. CreateKernels dev \<notin> set evs))"
proof (cases rule: forward_cases [of self q ext k v att_mask scale])
  case (create_failed self0 e)
  with assms have "self1 = fst (create_triton_kernels self (device q))"
    and "evs = [CreateKernels (device q)]" by auto
  with create_failed(1) show ?thesis by (simp add: create_triton_kernels_handles)
next
  case (created self0 l r0)
  with assms have "self1 = fst (create_triton_kernels self (device q))"
    and "evs = CreateKernels (device q) # l" and "self0 = self1" by auto
  moreover have "CreateKernels dev \<notin> set l" for dev
    using attention_no_create [of dev ext self0 q k v att_mask scale] created(3) by simp
  ultimately show ?thesis using created(1) by (simp add: create_triton_kernels_handles)
next
  case (cached l r0)
  with assms have "self1 = self" and "evs = l" by auto
  moreover have "CreateKernels dev \<notin> set l" for dev
    using attention_no_create [of dev ext self q k v att_mask scale] cached(2) by simp
  ultimately show ?thesis using cached(1) by simp
qed

lemma dot_map_divide:
  "dot (map (\<lambda>x. f x / c) xs) ys = dot (map f xs) ys / c"
proof (induction xs arbitrary: ys)
  case Nil
  then show ?case by (simp add: dot_def)
next
  case (Cons x xs)
  show ?case
  proof (cases ys)
    case Nil
    then show ?thesis by (simp add: dot_def)
  next
    case (Cons y ys')
    with Cons.IH [of ys'] show ?thesis
      by (simp add: dot_def add_divide_distrib)
  qed
qed

lemma row_map: "row d i (map f xs) = map f (row d i xs)"
  by (simp add: row_def take_map drop_map)

lemma scaled_score:
  assumes "\<And>x c. val (elem_div ext x c) = val x / c"
  shows "scale * dot (map val (row d i (data (div_scalar ext t c)))) ys =
         scale / c * dot (map val (row d i (data t))) ys"
proof -
  have "map val (row d i (data (div_scalar ext t c))) = map (\<lambda>x. val x / c) (row d i (data t))"
    by (simp add: div_scalar_def row_map assms o_def)
  then show ?thesis by (simp add: dot_map_divide)
qed

lemma attention_scaling:
  assumes "attention ext self q k v att_mask scale = (evs, r)"
  shows "(filter is_kernel_call evs = [] \<or>
          (\<exists>d sdd rest. shape_at (shape q) (- 1) = Some d \<and>
             filter is_kernel_call evs =
               SparseDotSDD sdd (div_scalar ext (half ext q) (sqrt (real d))) (half ext k) # rest)) \<and>
         (\<forall>sm x sc c. SparseSoftmax sm x sc c \<in> set evs \<longrightarrow> sc = scale) \<and>
         (\<forall>out. r = Inr out \<longrightarrow> (\<exists>sm x. SparseSoftmax sm x scale (causal self) \<in> set evs))"
  using assms
  by (cases rule: attention_outcomes [of ext self q k v att_mask scale])
     (auto simp: mask_warnings_def split: option.splits if_splits)

lemma masked_scores_log:
  assumes "masked_scores ext self q k m = (l, r)"
    and "filter is_kernel_call l = SparseDotSDD sdd a b # rest"
  shows "rest = [] \<and>
         r = (case matmul_call ext sdd a b of
                None \<Rightarrow> Inl KernelError
              | Some x0 \<Rightarrow> apply_mask ext self a x0 m)"
proof (cases rule: masked_scores_cases [of q ext self k m])
  case no_dim
  with assms show ?thesis by simp
next
  case no_sdd
  with assms show ?thesis by simp
next
  case (sdd_raised d op)
  with assms have e: "op = sdd" "a = div_scalar ext q (sqrt (real d))" "b = k" "rest = []"
    by auto
  with sdd_raised assms(1) show ?thesis
    by (auto simp: masked_scores_def bind_log_def lift_index_def call_sdd_def kernel_result_def
          Let_def split: option.splits)
next
  case (mask_failed d op x e)
  with assms show ?thesis by auto
next
  case (scored d op x x1)
  with assms show ?thesis by auto
qed

lemma weighted_values_log:
  assumes "sparse_softmax self = Some sm"
  shows "\<exists>rest. filter is_kernel_call (fst (weighted_values ext self x v scale dt)) =
           SparseSoftmax sm x scale (causal self) # rest"
  using assms by (cases rule: weighted_values_cases [of self ext x v scale dt]) simp_all

lemma attention_softmax_invoked:
  assumes a: "attention ext self q k v att_mask scale = (evs, r)"
    and f: "filter is_kernel_call evs = SparseDotSDD sdd a b # rest"
    and s: "matmul_call ext sdd a b = Some x0"
    and m: "apply_mask ext self a x0 (prepared_mask ext att_mask) = Inr x"
    and sm: "sparse_softmax self = Some sm"
  shows "\<exists>rest'. rest = SparseSoftmax sm x scale (causal self) # rest'"
proof (cases rule: attention_cases [of self q k ext v att_mask scale])
  case (check_failed e)
  with a f show ?thesis by auto
next
  case (scores_failed l e)
  with a f have "filter is_kernel_call l = SparseDotSDD sdd a b # rest" by auto
  from masked_scores_log [OF scores_failed(2) this] s m show ?thesis by simp
next
  case (scored l x' l' r')
  from scored(2) show ?thesis
  proof (cases rule: masked_scores_cases
      [of "half ext q" ext self "half ext k" "prepared_mask ext att_mask"])
    case (scored d op y y1)
    with \<open>masked_scores ext self (half ext q) (half ext k) (prepared_mask ext att_mask) = (l, Inr x')\<close>
    have l: "l = [SparseDotSDD op (div_scalar ext (half ext q) (sqrt (real d))) (half ext k)]"
      and y1: "y1 = x'" by simp_all
    from a \<open>attention ext self q k v att_mask scale = (mask_warnings att_mask @ l @ l', r')\<close>
    have "evs = mask_warnings att_mask @ l @ l'" by simp
    with f l
    have e: "op = sdd" "a = div_scalar ext (half ext q) (sqrt (real d))" "b = half ext k"
      "rest = filter is_kernel_call l'"
      by simp_all
    from scored e s m y1 have "x' = x" by simp
    with weighted_values_log [OF sm, of ext x "half ext v" scale "dtype q"]
      \<open>weighted_values ext self x' (half ext v) scale (dtype q) = (l', r')\<close> e
    show ?thesis by simp
  qed simp_all
qed

lemma attention_sdd_event:
  assumes "attention ext self q k v att_mask scale = (evs, r)"
    and "SparseDotSDD sdd a b \<in> set evs"
  shows "\<exists>d. shape_at (shape q) (- 1) = Some d \<and>
             a = div_scalar ext (half ext q) (sqrt (real d)) \<and> b = half ext k"
  using assms
  by (cases rule: attention_outcomes [of ext self q k v att_mask scale])
     (auto simp: mask_warnings_def split: option.splits if_splits)


text \<open>
  C3. In every call of \<^verbatim>\<open>forward\<close> that invokes a kernel, the first kernel invoked is
  \<open>sparse_dot_sdd\<close>, on the half-precision query divided elementwise by the square root of
  the size of its last dimension and on the half-precision key. When that kernel returns
  scores and the mask, if any, is added to them, the next kernel invoked is the sparse
  softmax of the instance, on the masked scores and with the caller's \<open>scale\<close>. Every
  invocation of the sparse softmax gets the caller's \<open>scale\<close>, and a call that returns has
  invoked it. For an element arithmetic whose division is exact (\<open>val\<close> reads an element as a
  real number), the scale that \<^verbatim>\<open>forward\<close> hands to the softmax times the score of a row of
  the query that \<^verbatim>\<open>forward\<close> hands to \<open>sparse_dot_sdd\<close>, against any key row, is
  \<open>scale / sqrt head_dim\<close> times the score of that row of the undivided query.
\<close>

theorem query_scaling:
  assumes "forward ext self q k v att_mask scale = (self1, evs, r)"
  shows "(filter is_kernel_call evs = [] \<or>
          (\<exists>d sdd rest. shape_at (shape q) (- 1) = Some d \<and>
             filter is_kernel_call evs =
               SparseDotSDD sdd (div_scalar ext (half ext q) (sqrt (real d))) (half ext k) # rest)) \<and>
         (\<forall>sdd a b rest x0 x sm.
            filter is_kernel_call evs = SparseDotSDD sdd a b # rest \<and>
            matmul_call ext sdd a b = Some x0 \<and>
            apply_mask ext self1 a x0 (prepared_mask ext att_mask) = Inr x \<and>
            sparse_softmax self1 = Some sm \<longrightarrow>
            (\<exists>rest'. rest = SparseSoftmax sm x scale (causal self1) # rest')) \<and>
         (\<forall>sm x sc c. SparseSoftmax sm x sc c \<in> set evs \<longrightarrow> sc = scale) \<and>
         (\<forall>out. r = Inr out \<longrightarrow> (\<exists>sm x c. SparseSoftmax sm x scale c \<in> set evs)) \<and>
         (\<forall>val. (\<forall>x c. val (elem_div ext x c) = val x / c) \<longrightarrow>
            (\<forall>d sdd a b sm x sc c i ys.
               shape_at (shape q) (- 1) = Some d \<and> SparseDotSDD sdd a b \<in> set evs \<and>
               SparseSoftmax sm x sc c \<in> set evs \<longrightarrow>
               sc * dot (map val (row d i (data a))) ys =
               scale / sqrt (real d) * dot (map val (row d i (data (half ext q)))) ys))"
proof (cases rule: forward_attention [of self ext q k v att_mask scale])
  case (create_failed self0 e)
  with assms have "evs = [CreateKernels (device q)]" and "r = Inl e" by auto
  then show ?thesis by simp
next
  case (attended self0 l0)
  from assms attended(1) have evs: "evs = l0 @ fst (attention ext self0 q k v att_mask scale)"
    and r: "r = snd (attention ext self0 q k v att_mask scale)"
    and self0: "self0 = self1" by auto
  have a: "attention ext self0 q k v att_mask scale =
      (fst (attention ext self0 q k v att_mask scale), r)" by (simp add: r)
  note s = attention_scaling [OF a]
  have l0: "SparseSoftmax sm x sc c \<notin> set l0" "SparseDotSDD sdd y z \<notin> set l0" for sm x sc c sdd y z
    using attended(4) by auto
  have 1: "filter is_kernel_call evs = [] \<or>
        (\<exists>d sdd rest. shape_at (shape q) (- 1) = Some d \<and>
           filter is_kernel_call evs =
             SparseDotSDD sdd (div_scalar ext (half ext q) (sqrt (real d))) (half ext k) # rest)"
    using s attended(2) by (simp add: evs)
  have 2: "\<forall>sdd a b rest x0 x sm.
            filter is_kernel_call evs = SparseDotSDD sdd a b # rest \<and>
            matmul_call ext sdd a b = Some x0 \<and>
            apply_mask ext self1 a x0 (prepared_mask ext att_mask) = Inr x \<and>
            sparse_softmax self1 = Some sm \<longrightarrow>
            (\<exists>rest'. rest = SparseSoftmax sm x scale (causal self1) # rest')"
  proof (intro allI impI, elim conjE)
    fix sdd a b rest x0 x sm
    assume "filter is_kernel_call evs = SparseDotSDD sdd a b # rest"
      and p: "matmul_call ext sdd a b = Some x0"
        "apply_mask ext self1 a x0 (prepared_mask ext att_mask) = Inr x"
        "sparse_softmax self1 = Some sm"
    with attended(2) have
      "filter is_kernel_call (fst (attention ext self0 q k v att_mask scale)) =
         SparseDotSDD sdd a b # rest"
      by (simp add: evs)
    from attention_softmax_invoked [OF a this p(1) p(2) [folded self0] p(3) [folded self0]]
    show "\<exists>rest'. rest = SparseSoftmax sm x scale (causal self1) # rest'"
      by (simp add: self0)
  qed
  have 3: "\<forall>sm x sc c. SparseSoftmax sm x sc c \<in> set evs \<longrightarrow> sc = scale"
    using s l0 by (simp add: evs)
  have 4: "\<forall>out. r = Inr out \<longrightarrow> (\<exists>sm x c. SparseSoftmax sm x scale c \<in> set evs)"
    using s by (auto simp: evs)
  have 5: "\<forall>val. (\<forall>x c. val (elem_div ext x c) = val x / c) \<longrightarrow>
            (\<forall>d sdd a b sm x sc c i ys.
               shape_at (shape q) (- 1) = Some d \<and> SparseDotSDD sdd a b \<in> set evs \<and>
               SparseSoftmax sm x sc c \<in> set evs \<longrightarrow>
               sc * dot (map val (row d i (data a))) ys =
               scale / sqrt (real d) * dot (map val (row d i (data (half ext q)))) ys)"
  proof (intro allI impI, elim conjE)
    fix val d sdd a b sm x sc c i ys
    assume v: "\<forall>x c. val (elem_div ext x c) = val x / c"
      and d: "shape_at (shape q) (- 1) = Some d"
      and e: "SparseDotSDD sdd a b \<in> set evs" "SparseSoftmax sm x sc c \<in> set evs"
    from e(1) l0 have "SparseDotSDD sdd a b \<in> set (fst (attention ext self0 q k v att_mask scale))"
      by (simp add: evs)
    from attention_sdd_event [OF a this] d
    have "a = div_scalar ext (half ext q) (sqrt (real d))" by auto
    moreover from 3 e(2) have "sc = scale" by blast
    ultimately show "sc * dot (map val (row d i (data a))) ys =
        scale / sqrt (real d) * dot (map val (row d i (data (half ext q)))) ys"
      using v by (simp add: scaled_score)
  qed
  from 1 2 3 4 5 show ?thesis by (intro conjI)
qed

lemma dtype_prepared_mask:
  "prepared_mask ext att_mask = Some m \<Longrightarrow> dtype m = Float16"
  by (auto simp: prepared_mask_def)

lemma attention_dtype:
  assumes "attention ext self q k v att_mask scale = (evs, Inr out)"
  shows "dtype out = dtype q \<and>
         (\<exists>sdd q1 k1 sm x dsd y v1 x0.
            filter is_kernel_call evs =
              [SparseDotSDD sdd q1 k1, SparseSoftmax sm x scale (causal self), SparseDotDSD dsd y v1] \<and>
            dtype q1 = Float16 \<and> dtype k1 = Float16 \<and> dtype v1 = Float16 \<and>
            apply_mask ext self q1 x0 (prepared_mask ext att_mask) = Inr x)"
  using assms
  by (cases rule: attention_outcomes [of ext self q k v att_mask scale]) auto

text \<open>
  C6. When \<^verbatim>\<open>forward\<close> returns a tensor, its dtype is the dtype of \<open>q\<close> (float32 for a
  float32 query, float16 for a float16 query), although the kernels were invoked on
  half-precision tensors: the three kernel calls are \<open>sparse_dot_sdd\<close> on a float16 query
  and key, the softmax, and \<open>sparse_dot_dsd\<close> on a float16 value tensor, and the mask that
  was added to the scores, if there is one, is float16.
\<close>

theorem output_dtype:
  assumes "forward ext self q k v att_mask scale = (self1, evs, Inr out)"
  shows "dtype out = dtype q \<and>
         (dtype q = Float32 \<longrightarrow> dtype out = Float32) \<and>
         (dtype q = Float16 \<longrightarrow> dtype out = Float16) \<and>
         (\<exists>sdd q1 k1 sm x dsd y v1 x0.
            filter is_kernel_call evs =
              [SparseDotSDD sdd q1 k1, SparseSoftmax sm x scale (causal self1), SparseDotDSD dsd y v1] \<and>
            dtype q1 = Float16 \<and> dtype k1 = Float16 \<and> dtype v1 = Float16 \<and>
            apply_mask ext self1 q1 x0 (prepared_mask ext att_mask) = Inr x) \<and>
         (\<forall>m. prepared_mask ext att_mask = Some m \<longrightarrow> dtype m = Float16)"
proof (cases rule: forward_attention [of self ext q k v att_mask scale])
  case (create_failed self0 e)
  with assms show ?thesis by auto
next
  case (attended self0 l0)
  from assms attended(1) have evs: "evs = l0 @ fst (attention ext self0 q k v att_mask scale)"
    and r: "Inr out = snd (attention ext self0 q k v att_mask scale)"
    and s: "self0 = self1" by auto
  have a: "attention ext self1 q k v att_mask scale =
      (fst (attention ext self1 q k v att_mask scale), Inr out)" by (simp add: r s)
  from attention_dtype [OF a] attended(2) show ?thesis
    by (simp add: evs s dtype_prepared_mask)
qed


lemma ex_q_simps [simp]:
  "shape (ex_q dev dt) = [1, 1, 16, 4]" "dtype (ex_q dev dt) = dt" "device (ex_q dev dt) = dev"
  by (simp_all add: ex_q_def)

lemma ex_ext_simps [simp]:
  "matmul_call ex_ext op a b = Some a" "softmax_call ex_ext sm x scale c = Some x"
  "dropout_call ex_ext p x = x"
  by (simp_all add: ex_ext_def)

lemma ex_self_simps [simp]:
  "sparse_dot_sdd ex_self = None" "layout ex_self = ex_layout1" "block_size ex_self = 16"
  "causal ex_self = False" "attn_drop ex_self = 0"
  by (simp_all add: ex_self_def)

lemma ex_create: "create_triton_kernels ex_self dev = (ex_bound dev, None)"
  by (simp add: ex_bound_def create_triton_kernels_def Let_def shape_at_def nonzero_def
        ex_layout1_def)

lemma ex_bound_simps [simp]:
  "sparse_dot_sdd (ex_bound dev) =
     Some \<lparr>mm_layout = ex_layout1, mm_block = 16, mm_mode = ''sdd'',
           mm_trans_a = False, mm_trans_b = True, mm_device = dev\<rparr>"
  "sparse_dot_dsd (ex_bound dev) =
     Some \<lparr>mm_layout = ex_layout1, mm_block = 16, mm_mode = ''dsd'',
           mm_trans_a = False, mm_trans_b = False, mm_device = dev\<rparr>"
  "sparse_softmax (ex_bound dev) =
     Some \<lparr>sm_layout = ex_layout1, sm_block = 16, sm_device = dev\<rparr>"
  "layout (ex_bound dev) = ex_layout1" "block_size (ex_bound dev) = 16"
  "causal (ex_bound dev) = False" "attn_drop (ex_bound dev) = 0"
  by (simp_all add: ex_bound_def create_triton_kernels_handles)
     (simp_all add: create_triton_kernels_def Let_def split: option.splits prod.splits)

lemmas forward_steps = forward_def ensure_kernels_def attention_def masked_scores_def
  weighted_values_def bind_log_def convert_mask_def update_mask_type_def lift_check_def
  lift_index_def check_shapes_def call_sdd_def call_softmax_def call_dsd_def kernel_result_def
  apply_mask_def mask_shape_check_def shape_at_def Let_def


lemma ex_mask_bad_simps [simp]:
  "shape ex_mask_bad = [2, 1, 1, 16]" "dtype ex_mask_bad = Float32"
  by (simp_all add: ex_mask_bad_def)

lemma ex_k_long_simps [simp]:
  "shape ex_k_long = [1, 1, 32, 4]" "dtype ex_k_long = Float32"
  by (simp_all add: ex_k_long_def)

lemma ex_forward_plain:
  "forward ex_ext ex_self (ex_q dev dt) (ex_q dev dt) (ex_q dev dt) None scale =
     (ex_bound dev,
      [CreateKernels dev,
       SparseDotSDD \<lparr>mm_layout = ex_layout1, mm_block = 16, mm_mode = ''sdd'',
                      mm_trans_a = False, mm_trans_b = True, mm_device = dev\<rparr>
         (div_scalar ex_ext (half ex_ext (ex_q dev dt)) (sqrt 4)) (half ex_ext (ex_q dev dt)),
       SparseSoftmax \<lparr>sm_layout = ex_layout1, sm_block = 16, sm_device = dev\<rparr>
         (div_scalar ex_ext (half ex_ext (ex_q dev dt)) (sqrt 4)) scale False,
       SparseDotDSD \<lparr>mm_layout = ex_layout1, mm_block = 16, mm_mode = ''dsd'',
                      mm_trans_a = False, mm_trans_b = False, mm_device = dev\<rparr>
         (div_scalar ex_ext (half ex_ext (ex_q dev dt)) (sqrt 4)) (half ex_ext (ex_q dev dt))],
      Inr (to_dtype ex_ext dt (div_scalar ex_ext (half ex_ext (ex_q dev dt)) (sqrt 4))))"
  by (simp add: forward_steps ex_create) (simp add: ex_layout1_def)

lemma ex_forward_again:
  "forward ex_ext (ex_bound dev0) (ex_q dev dt) (ex_q dev dt) (ex_q dev dt) None scale =
     (ex_bound dev0,
      [SparseDotSDD \<lparr>mm_layout = ex_layout1, mm_block = 16, mm_mode = ''sdd'',
                      mm_trans_a = False, mm_trans_b = True, mm_device = dev0\<rparr>
         (div_scalar ex_ext (half ex_ext (ex_q dev dt)) (sqrt 4)) (half ex_ext (ex_q dev dt)),
       SparseSoftmax \<lparr>sm_layout = ex_layout1, sm_block = 16, sm_device = dev0\<rparr>
         (div_scalar ex_ext (half ex_ext (ex_q dev dt)) (sqrt 4)) scale False,
       SparseDotDSD \<lparr>mm_layout = ex_layout1, mm_block = 16, mm_mode = ''dsd'',
                      mm_trans_a = False, mm_trans_b = False, mm_device = dev0\<rparr>
         (div_scalar ex_ext (half ex_ext (ex_q dev dt)) (sqrt 4)) (half ex_ext (ex_q dev dt))],
      Inr (to_dtype ex_ext dt (div_scalar ex_ext (half ex_ext (ex_q dev dt)) (sqrt 4))))"
  by (simp add: forward_steps) (simp add: ex_layout1_def)

lemma ex_forward_bad_mask:
  "forward ex_ext ex_self (ex_q dev dt) (ex_q dev dt) (ex_q dev dt) (Some ex_mask_bad) scale =
     (ex_bound dev,
      [CreateKernels dev,
       SparseDotSDD \<lparr>mm_layout = ex_layout1, mm_block = 16, mm_mode = ''sdd'',
                      mm_trans_a = False, mm_trans_b = True, mm_device = dev\<rparr>
         (div_scalar ex_ext (half ex_ext (ex_q dev dt)) (sqrt 4)) (half ex_ext (ex_q dev dt))],
      Inl (AssertionError MaskShape))"
  by (simp add: forward_steps ex_create) (simp add: ex_layout1_def)

lemma ex_forward_long_key:
  "forward ex_ext ex_self (ex_q dev dt) ex_k_long (ex_q dev dt) None scale =
     (ex_bound dev, [CreateKernels dev], Inl (AssertionError SameKQ))"
  by (simp add: forward_steps ex_create)

lemma ex_rows:
  "row 4 1 (data (half ex_ext (ex_q ''cuda:0'' Float32))) = [4, 5, 6, 7]"
  "row 4 1 (data (div_scalar ex_ext (half ex_ext (ex_q ''cuda:0'' Float32)) 2)) =
     [2, 5 / 2, 3, 7 / 2]"
  by (simp_all add: row_def half_def to_dtype_def div_scalar_def ex_q_def ex_ext_def
        drop_map take_map)


section \<open>The properties of \<^verbatim>\<open>forward\<close> on the example inputs\<close>

theorem multiple_assertion_unreachable_witness:
  "check_shapes ex_self (shape (ex_q ''cuda:0'' Float16)) (shape (ex_q ''cuda:0'' Float16)) = None \<and>
   check_shapes ex_self (shape (ex_q ''cuda:0'' Float16)) (shape ex_k_long) \<noteq>
     Some (AssertionError (SeqMultiple 16 16)) \<and>
   snd (snd (forward ex_ext ex_self (ex_q ''cuda:0'' Float16) (ex_q ''cuda:0'' Float16)
               (ex_q ''cuda:0'' Float16) None 1)) \<noteq> Inl (AssertionError (SeqMultiple 16 16))"
  using multiple_assertion_unreachable
          [of ex_self "ex_q ''cuda:0'' Float16" ex_k_long 16 16 ex_ext "ex_q ''cuda:0'' Float16" None 1]
        multiple_assertion_unreachable
          [of ex_self "ex_q ''cuda:0'' Float16" "ex_q ''cuda:0'' Float16" 16 16 ex_ext
              "ex_q ''cuda:0'' Float16" None 1]
  by (simp add: check_shapes_def shape_at_def ex_layout1_def)

theorem mask_error_after_sdd_counterexample:
  "invalid_mask_shape (shape ex_mask_bad) (shape (ex_q ''cuda:0'' Float32)) \<and>
   snd (snd (forward ex_ext ex_self (ex_q ''cuda:0'' Float32) (ex_q ''cuda:0'' Float32)
               (ex_q ''cuda:0'' Float32) (Some ex_mask_bad) 1)) = Inl (AssertionError MaskShape) \<and>
   filter is_kernel_call
     (fst (snd (forward ex_ext ex_self (ex_q ''cuda:0'' Float32) (ex_q ''cuda:0'' Float32)
                  (ex_q ''cuda:0'' Float32) (Some ex_mask_bad) 1))) =
     [SparseDotSDD \<lparr>mm_layout = ex_layout1, mm_block = 16, mm_mode = ''sdd'',
                     mm_trans_a = False, mm_trans_b = True, mm_device = ''cuda:0''\<rparr>
        (div_scalar ex_ext (half ex_ext (ex_q ''cuda:0'' Float32)) (sqrt 4))
        (half ex_ext (ex_q ''cuda:0'' Float32))]"
  by (simp add: ex_forward_bad_mask invalid_mask_shape_def)

theorem mask_error_after_sdd_witness:
  "invalid_mask_shape (shape ex_mask_bad) (shape (ex_q ''cuda:0'' Float32)) \<and>
   (\<exists>sdd q1 k1.
      filter is_kernel_call
        (fst (snd (forward ex_ext ex_self (ex_q ''cuda:0'' Float32) (ex_q ''cuda:0'' Float32)
                     (ex_q ''cuda:0'' Float32) (Some ex_mask_bad) 1))) =
        [SparseDotSDD sdd q1 k1]) \<and>
   snd (snd (forward ex_ext ex_self (ex_q ''cuda:0'' Float32) ex_k_long
               (ex_q ''cuda:0'' Float32) None 1)) = Inl (AssertionError SameKQ) \<and>
   filter is_kernel_call
     (fst (snd (forward ex_ext ex_self (ex_q ''cuda:0'' Float32) ex_k_long
                  (ex_q ''cuda:0'' Float32) None 1))) = []"
proof -
  have i: "invalid_mask_shape (shape ex_mask_bad) (shape (ex_q ''cuda:0'' Float32))"
    by (simp add: invalid_mask_shape_def)
  from mask_error_after_sdd [OF ex_forward_bad_mask [of "''cuda:0''" Float32 1]]
  have "\<exists>sdd q1 k1.
      filter is_kernel_call
        [CreateKernels ''cuda:0'',
         SparseDotSDD \<lparr>mm_layout = ex_layout1, mm_block = 16, mm_mode = ''sdd'',
                        mm_trans_a = False, mm_trans_b = True, mm_device = ''cuda:0''\<rparr>
           (div_scalar ex_ext (half ex_ext (ex_q ''cuda:0'' Float32)) (sqrt 4))
           (half ex_ext (ex_q ''cuda:0'' Float32))] = [SparseDotSDD sdd q1 k1]"
    by blast
  moreover from mask_error_after_sdd [OF ex_forward_long_key [of "''cuda:0''" Float32 1]]
  have "filter is_kernel_call [CreateKernels ''cuda:0'' :: (real, string) event] = []"
    by blast
  ultimately show ?thesis
    using i by (simp add: ex_forward_bad_mask ex_forward_long_key)
qed

theorem kernel_rebinding_counterexample:
  "device (ex_q ''cuda:1'' Float16) = ''cuda:1'' \<and>
   fst (forward ex_ext ex_self (ex_q ''cuda:0'' Float16) (ex_q ''cuda:0'' Float16)
          (ex_q ''cuda:0'' Float16) None 1) = ex_bound ''cuda:0'' \<and>
   map_option mm_device
     (sparse_dot_sdd
        (fst (forward ex_ext (ex_bound ''cuda:0'') (ex_q ''cuda:1'' Float16)
                (ex_q ''cuda:1'' Float16) (ex_q ''cuda:1'' Float16) None 1))) = Some ''cuda:0'' \<and>
   map_option sm_device
     (sparse_softmax
        (fst (forward ex_ext (ex_bound ''cuda:0'') (ex_q ''cuda:1'' Float16)
                (ex_q ''cuda:1'' Float16) (ex_q ''cuda:1'' Float16) None 1))) = Some ''cuda:0'' \<and>
   CreateKernels ''cuda:1'' \<notin>
     set (fst (snd (forward ex_ext (ex_bound ''cuda:0'') (ex_q ''cuda:1'' Float16)
                      (ex_q ''cuda:1'' Float16) (ex_q ''cuda:1'' Float16) None 1)))"
  by (simp add: ex_forward_plain ex_forward_again)

theorem kernel_binding_witness:
  "sparse_dot_sdd ex_self = None \<and>
   sparse_dot_sdd
     (fst (forward ex_ext ex_self (ex_q ''cuda:0'' Float16) (ex_q ''cuda:0'' Float16)
             (ex_q ''cuda:0'' Float16) None 1)) =
     Some \<lparr>mm_layout = ex_layout1, mm_block = 16, mm_mode = ''sdd'',
           mm_trans_a = False, mm_trans_b = True, mm_device = ''cuda:0''\<rparr> \<and>
   sparse_dot_sdd (ex_bound ''cuda:0'') \<noteq> None \<and>
   fst (forward ex_ext (ex_bound ''cuda:0'') (ex_q ''cuda:1'' Float16)
          (ex_q ''cuda:1'' Float16) (ex_q ''cuda:1'' Float16) None 1) = ex_bound ''cuda:0''"
  using kernel_binding [OF ex_forward_plain [of "''cuda:0''" Float16 1]]
        kernel_binding [OF ex_forward_again [of "''cuda:0''" "''cuda:1''" Float16 1]]
  by (simp add: ex_forward_plain ex_forward_again)

theorem query_scaling_witness:
  "shape_at (shape (ex_q ''cuda:0'' Float32)) (- 1) = Some 4 \<and>
   (\<exists>rest.
      filter is_kernel_call
        (fst (snd (forward ex_ext ex_self (ex_q ''cuda:0'' Float32) (ex_q ''cuda:0'' Float32)
                     (ex_q ''cuda:0'' Float32) None (1 / 8)))) =
        SparseDotSDD \<lparr>mm_layout = ex_layout1, mm_block = 16, mm_mode = ''sdd'',
                       mm_trans_a = False, mm_trans_b = True, mm_device = ''cuda:0''\<rparr>
          (div_scalar ex_ext (half ex_ext (ex_q ''cuda:0'' Float32)) (sqrt (real 4)))
          (half ex_ext (ex_q ''cuda:0'' Float32)) #
        SparseSoftmax \<lparr>sm_layout = ex_layout1, sm_block = 16, sm_device = ''cuda:0''\<rparr>
          (div_scalar ex_ext (half ex_ext (ex_q ''cuda:0'' Float32)) (sqrt (real 4)))
          (1 / 8) False # rest) \<and>
   (1 / 8) * dot (map (\<lambda>x. x)
       (row 4 1 (data (div_scalar ex_ext (half ex_ext (ex_q ''cuda:0'' Float32)) (sqrt (real 4))))))
       [1, 2, 3, 4] =
   (1 / 8) / sqrt (real 4) *
     dot (map (\<lambda>x. x) (row 4 1 (data (half ex_ext (ex_q ''cuda:0'' Float32))))) [1, 2, 3, 4] \<and>
   row 4 1 (data (half ex_ext (ex_q ''cuda:0'' Float32))) = [4, 5, 6, 7] \<and>
   (1 / 8) / sqrt (real 4) *
     dot (map (\<lambda>x. x) (row 4 1 (data (half ex_ext (ex_q ''cuda:0'' Float32))))) [1, 2, 3, 4] =
   15 / 4"
proof -
  let ?q = "ex_q ''cuda:0'' Float32"
  let ?Q = "div_scalar ex_ext (half ex_ext ?q) (sqrt 4)"
  let ?sdd = "\<lparr>mm_layout = ex_layout1, mm_block = 16, mm_mode = ''sdd'',
                mm_trans_a = False, mm_trans_b = True, mm_device = ''cuda:0''\<rparr>"
  let ?dsd = "\<lparr>mm_layout = ex_layout1, mm_block = 16, mm_mode = ''dsd'',
                mm_trans_a = False, mm_trans_b = False, mm_device = ''cuda:0''\<rparr>"
  let ?sm = "\<lparr>sm_layout = ex_layout1, sm_block = 16, sm_device = ''cuda:0''\<rparr>"
  let ?rest = "[SparseSoftmax ?sm ?Q (1 / 8) False, SparseDotDSD ?dsd ?Q (half ex_ext ?q)]"
  let ?evs = "[CreateKernels ''cuda:0'', SparseDotSDD ?sdd ?Q (half ex_ext ?q),
               SparseSoftmax ?sm ?Q (1 / 8) False, SparseDotDSD ?dsd ?Q (half ex_ext ?q)]"
  have d: "shape_at (shape ?q) (- 1) = Some 4"
    by (simp add: shape_at_def)
  have v: "elem_div ex_ext x c = x / c" for x c
    by (simp add: ex_ext_def)
  have p: "filter is_kernel_call ?evs = SparseDotSDD ?sdd ?Q (half ex_ext ?q) # ?rest \<and>
           matmul_call ex_ext ?sdd ?Q (half ex_ext ?q) = Some ?Q \<and>
           apply_mask ex_ext (ex_bound ''cuda:0'') ?Q ?Q (prepared_mask ex_ext None) = Inr ?Q \<and>
           sparse_softmax (ex_bound ''cuda:0'') = Some ?sm"
    by (simp add: apply_mask_def prepared_mask_def)
  have e: "shape_at (shape ?q) (- 1) = Some 4 \<and>
           SparseDotSDD ?sdd ?Q (half ex_ext ?q) \<in> set ?evs \<and>
           SparseSoftmax ?sm ?Q (1 / 8) False \<in> set ?evs"
    using d by simp
  note t = query_scaling [OF ex_forward_plain [of "''cuda:0''" Float32 "1 / 8"]]
  note c2 = t [THEN conjunct2, THEN conjunct1, rule_format, OF p]
  note c5 = t [THEN conjunct2, THEN conjunct2, THEN conjunct2, THEN conjunct2, rule_format,
    where val = "\<lambda>x. x" and d = 4 and i = 1 and ys = "[1, 2, 3, 4]", OF v e]
  have "(1 / 8) / sqrt (real 4) * dot (map (\<lambda>x. x) (row 4 1 (data (half ex_ext ?q)))) [1, 2, 3, 4] =
        15 / 4"
    unfolding ex_rows by (simp add: dot_def)
  with c2 c5 d ex_rows(1) show ?thesis
    by (simp add: ex_forward_plain)
qed

theorem output_dtype_witness:
  "dtype (projr (snd (snd (forward ex_ext ex_self (ex_q ''cuda:0'' Float32) (ex_q ''cuda:0'' Float32)
                             (ex_q ''cuda:0'' Float32) None 1)))) = Float32 \<and>
   dtype (projr (snd (snd (forward ex_ext ex_self (ex_q ''cuda:0'' Float16) (ex_q ''cuda:0'' Float16)
                             (ex_q ''cuda:0'' Float16) None 1)))) = Float16"
  using output_dtype [OF ex_forward_plain [of "''cuda:0''" Float32 1]]
        output_dtype [OF ex_forward_plain [of "''cuda:0''" Float16 1]]
  by (simp add: ex_forward_plain)


section \<open>The block mask\<close>

lemma take_drop_concat_chunks:
  assumes "\<forall>xs \<in> set xss. length xs = n" "k < length xss" "off + len \<le> n"
  shows "take len (drop (k * n + off) (concat xss)) = take len (drop off (xss ! k))"
  using assms
proof (induction xss arbitrary: k)
  case Nil
  then show ?case by simp
next
  case (Cons xs xss)
  from Cons.prems have n: "length xs = n" by simp
  show ?case
  proof (cases k)
    case 0
    with Cons.prems n show ?thesis by simp
  next
    case (Suc k')
    with Cons.prems have "k' < length xss" and "\<forall>xs \<in> set xss. length xs = n" by simp_all
    from Cons.IH [OF this(2) this(1) Cons.prems(3)] Suc n show ?thesis
      by (simp add: add.assoc)
  qed
qed

lemma take_drop_take:
  "off + len \<le> n \<Longrightarrow> take len (drop off (take n xs)) = take len (drop off xs)"
  by (simp add: drop_take min_def)

text \<open>One block of the expanded mask is the block of the one head it was expanded from.\<close>

lemma expanded_block:
  assumes len: "length xs = B * S" and S: "S = C * bs"
    and b: "b < B" and h: "h < H" and j: "j < C"
  shows "take bs (drop ((b * (H * C) + (h * C + j)) * bs)
             (concat (map (\<lambda>b. concat (replicate H (take S (drop (b * S) xs)))) [0..<B]))) =
         take bs (drop ((b * C + j) * bs) xs)"
proof -
  let ?row = "\<lambda>b. take S (drop (b * S) xs)"
  let ?xss = "map (\<lambda>b. concat (replicate H (?row b))) [0..<B]"
  have jb: "j * bs + bs \<le> S"
  proof -
    have "j * bs + bs = Suc j * bs" by simp
    also have "\<dots> \<le> C * bs" using j by (intro mult_le_mono1) simp
    finally show ?thesis by (simp add: S)
  qed
  have hS: "h * S + S \<le> H * S"
  proof -
    have "h * S + S = Suc h * S" by simp
    also have "\<dots> \<le> H * S" using h by (intro mult_le_mono1) simp
    finally show ?thesis .
  qed
  have rowlen: "length (?row b') = S" if "b' < B" for b'
  proof -
    have "b' * S + S = Suc b' * S" by simp
    also have "\<dots> \<le> B * S" using that by (intro mult_le_mono1) simp
    finally show ?thesis using len by simp
  qed
  have chunk: "\<forall>ys \<in> set ?xss. length ys = H * S"
  proof
    fix ys
    assume "ys \<in> set ?xss"
    then obtain b' where b': "b' < B" and ys: "ys = concat (replicate H (?row b'))" by auto
    from rowlen [OF b'] show "length ys = H * S"
      unfolding ys by (simp add: length_concat sum_list_replicate del: length_take length_drop)
  qed
  have pos: "(b * (H * C) + (h * C + j)) * bs = b * (H * S) + (h * S + j * bs)"
    by (simp add: S algebra_simps)
  have "take bs (drop ((b * (H * C) + (h * C + j)) * bs) (concat ?xss)) =
        take bs (drop (h * S + j * bs) (?xss ! b))"
    unfolding pos
    using b jb hS by (intro take_drop_concat_chunks [OF chunk]) simp_all
  also have "?xss ! b = concat (replicate H (?row b))"
    using b by simp
  also have "take bs (drop (h * S + j * bs) (concat (replicate H (?row b)))) =
             take bs (drop (j * bs) (replicate H (?row b) ! h))"
    using h jb rowlen [OF b]
    by (intro take_drop_concat_chunks) (simp_all del: length_take length_drop)
  also have "replicate H (?row b) ! h = ?row b"
    using h by simp
  also have "take bs (drop (j * bs) (?row b)) = take bs (drop (j * bs) (drop (b * S) xs))"
    using jb by (intro take_drop_take) simp
  also have "\<dots> = take bs (drop ((b * C + j) * bs) xs)"
    by (simp add: S algebra_simps)
  finally show ?thesis .
qed


lemma active_triples_bounds:
  assumes "shape t = [H, R, C]" "(h, i, j) \<in> set (active_triples t)"
  shows "h < H \<and> i < R \<and> j < C"
  using assms by (auto simp: active_triples_def split: if_splits)

lemma block_size_create [simp]:
  "block_size (fst (create_triton_kernels self dev)) = block_size self"
  by (simp add: create_triton_kernels_def Let_def split: option.splits prod.splits)

lemma reshape_blocks:
  assumes "numel t = B * (N * nb)" "0 < nb"
  shows "reshape t [int B, int N, int nb] = Some (t\<lparr>shape := [B, N, nb]\<rparr>)"
  using assms by (simp add: reshape_def)

lemma index_blocks_eval:
  assumes "shape t = [B, N, nb]" "\<forall>i \<in> set idx. i < N"
  shows "index_blocks t idx =
     Some (t\<lparr>shape := [B, length idx, nb],
             data := concat (map (\<lambda>b. concat (map (\<lambda>i. take nb (drop ((b * N + i) * nb) (data t))) idx))
                              [0..<B])\<rparr>)"
  using assms by (auto simp: index_blocks_def list_ex_iff)

lemma block_mask_broadcast:
  assumes l: "shape (layout self) = [Hl, R, C]" and wf: "well_formed (layout self)"
    and m: "shape m = [B, 1, 1, S]" and bs: "block_size self = int nb" "0 < nb" and S: "S = C * nb"
  shows "block_mask (fst (create_triton_kernels self dev)) m =
     Inr (m\<lparr>shape := [B, length (active_triples (layout self)), nb],
            data := concat (map (\<lambda>b. concat (map (\<lambda>(h, i, j).
                       take nb (drop ((b * C + j) * nb) (data m))) (active_triples (layout self))))
                     [0..<B])\<rparr>)"
proof -
  let ?T = "active_triples (layout self)"
  have r: "reshape m [int B, int C, int nb] = Some (m\<lparr>shape := [B, C, nb]\<rparr>)"
    using m bs(2) by (intro reshape_blocks) (simp_all add: numel_def S)
  have d: "int S div int nb = int C"
    using bs(2) by (simp add: S)
  have i: "index_blocks (m\<lparr>shape := [B, C, nb]\<rparr>) (map (\<lambda>(h, i, j). j) ?T) =
      Some (m\<lparr>shape := [B, length ?T, nb],
              data := concat (map (\<lambda>b. concat (map (\<lambda>(h, i, j).
                        take nb (drop ((b * C + j) * nb) (data m))) ?T)) [0..<B])\<rparr>)"
  proof -
    have "\<forall>i \<in> set (map (\<lambda>(h, i, j). j) ?T). i < C"
      by (auto dest: active_triples_bounds [OF l])
    with index_blocks_eval [of "m\<lparr>shape := [B, C, nb]\<rparr>" B C nb "map (\<lambda>(h, i, j). j) ?T"]
    show ?thesis by (simp add: o_def split_def)
  qed
  show ?thesis
    using bs(2)
    by (simp add: block_mask_def m shape_at_def bs(1) d r
          create_triton_kernels_gather [OF l wf] i)
qed


lemma concat_rows:
  "length xs = B * S \<Longrightarrow> concat (map (\<lambda>b. take S (drop (b * S) xs)) [0..<B]) = xs"
proof (induction B arbitrary: xs)
  case 0
  then show ?case by simp
next
  case (Suc B)
  have "concat (map (\<lambda>b. take S (drop (b * S) xs)) [0..<Suc B]) =
        concat (map (\<lambda>b. take S (drop (b * S) xs)) [0..<B]) @ take S (drop (B * S) xs)"
    by simp
  also have "concat (map (\<lambda>b. take S (drop (b * S) xs)) [0..<B]) =
             concat (map (\<lambda>b. take S (drop (b * S) (take (B * S) xs))) [0..<B])"
  proof (intro arg_cong [where f = concat] map_cong refl)
    fix b assume "b \<in> set [0..<B]"
    then have "Suc b \<le> B" by simp
    then have "Suc b * S \<le> B * S" by (rule mult_le_mono1)
    then have "b * S + S \<le> B * S" by simp
    then show "take S (drop (b * S) xs) = take S (drop (b * S) (take (B * S) xs))"
      by (simp add: take_drop_take)
  qed
  also have "\<dots> = take (B * S) xs"
    using Suc.prems by (intro Suc.IH) simp
  also have "take (B * S) xs @ take S (drop (B * S) xs) = xs"
    using Suc.prems by (simp add: take_add [symmetric])
  finally show ?case .
qed

lemma expand_heads_eval:
  assumes "shape m = [B, 1, 1, S]"
  shows "expand_heads H m =
     m\<lparr>shape := [B, H, 1, S],
       data := concat (map (\<lambda>b. concat (replicate H (take S (drop (b * S) (data m))))) [0..<B])\<rparr>"
  using assms by (simp add: expand_heads_def)

lemma block_mask_per_head:
  assumes l: "shape (layout self) = [Hl, R, C]" and wf: "well_formed (layout self)"
    and m: "shape m = [B, 1, 1, S]" and bs: "block_size self = int nb" "0 < nb" and S: "S = C * nb"
    and H: "Hl \<le> H" "H \<noteq> 1"
  shows "block_mask (fst (create_triton_kernels self dev)) (expand_heads H m) =
     Inr (m\<lparr>shape := [B, length (active_triples (layout self)), nb],
            data := concat (map (\<lambda>b. concat (map (\<lambda>(h, i, j).
                       take nb (drop ((b * (H * C) + (h * C + j)) * nb) (data (expand_heads H m))))
                       (active_triples (layout self))))
                     [0..<B])\<rparr>)"
proof -
  let ?T = "active_triples (layout self)"
  let ?m = "expand_heads H m"
  have sh: "shape ?m = [B, H, 1, S]"
    by (simp add: expand_heads_eval [OF m])
  have r: "reshape ?m [int B, int (H * C), int nb] = Some (?m\<lparr>shape := [B, H * C, nb]\<rparr>)"
    using bs(2) by (intro reshape_blocks) (simp_all add: numel_def S sh)
  have d: "int H * int S div int nb = int (H * C)"
    using bs(2) by (simp add: S)
  have i: "index_blocks (?m\<lparr>shape := [B, H * C, nb]\<rparr>) (map (\<lambda>(h, i, j). h * C + j) ?T) =
      Some (?m\<lparr>shape := [B, length ?T, nb],
              data := concat (map (\<lambda>b. concat (map (\<lambda>(h, i, j).
                        take nb (drop ((b * (H * C) + (h * C + j)) * nb) (data ?m))) ?T)) [0..<B])\<rparr>)"
  proof -
    have "h * C + j < H * C" if "(h, i, j) \<in> set ?T" for h i j
    proof -
      from active_triples_bounds [OF l that] H(1) have "h < H" "j < C" by simp_all
      then have "h * C + j < h * C + C" by simp
      also have "\<dots> = Suc h * C" by simp
      also have "\<dots> \<le> H * C" using \<open>h < H\<close> by (intro mult_le_mono1) simp
      finally show ?thesis .
    qed
    then have "\<forall>i \<in> set (map (\<lambda>(h, i, j). h * C + j) ?T). i < H * C"
      by auto
    with index_blocks_eval [of "?m\<lparr>shape := [B, H * C, nb]\<rparr>" B "H * C" nb
           "map (\<lambda>(h, i, j). h * C + j) ?T"]
    show ?thesis by (simp add: o_def split_def)
  qed
  have e: "?m\<lparr>shape := [B, length ?T, nb], data := xs\<rparr> = m\<lparr>shape := [B, length ?T, nb], data := xs\<rparr>"
    for xs
    by (simp add: expand_heads_eval [OF m])
  show ?thesis
    using bs(2) H(2)
    by (simp add: block_mask_def sh shape_at_def bs(1) d r [simplified]
          create_triton_kernels_gather [OF l wf] i e)
qed

text \<open>The mask may be expanded to more heads than the layout has.\<close>

lemma block_mask_expand_heads:
  assumes l: "shape (layout self) = [Hl, R, C]" and wf: "well_formed (layout self)"
    and m: "shape m = [B, 1, 1, S]" and wfm: "well_formed m"
    and bs: "block_size self = int nb" "0 < nb" and S: "S = C * nb"
    and H: "Hl \<le> H"
  shows "block_mask (fst (create_triton_kernels self dev)) (expand_heads H m) =
         block_mask (fst (create_triton_kernels self dev)) m \<and>
         (\<exists>bm. block_mask (fst (create_triton_kernels self dev)) m = Inr bm \<and>
               shape bm = [B, length (active_triples (layout self)), nb])"
proof (cases "H = 1")
  case True
  have len: "length (data m) = B * S"
    using wfm m by (simp add: well_formed_def)
  from concat_rows [OF len] have "expand_heads H m = m"
    using True m by (simp add: expand_heads_eval [OF m])
  then show ?thesis
    using block_mask_broadcast [OF l wf m bs S, of dev] by simp
next
  case False
  have len: "length (data m) = B * S"
    using wfm m by (simp add: well_formed_def)
  have "(\<lambda>b. concat (map (\<lambda>(h, i, j).
            take nb (drop ((b * (H * C) + (h * C + j)) * nb) (data (expand_heads H m))))
            (active_triples (layout self)))) b =
        (\<lambda>b. concat (map (\<lambda>(h, i, j). take nb (drop ((b * C + j) * nb) (data m)))
            (active_triples (layout self)))) b"
    if "b \<in> set [0..<B]" for b
  proof -
    have "take nb (drop ((b * (H * C) + (h * C + j)) * nb) (data (expand_heads H m))) =
          take nb (drop ((b * C + j) * nb) (data m))"
      if "(h, i, j) \<in> set (active_triples (layout self))" for h i j
    proof -
      from active_triples_bounds [OF l that] H have "h < H" "j < C" by simp_all
      with expanded_block [OF len S, of b h H j] \<open>b \<in> set [0..<B]\<close> show ?thesis
        by (simp add: expand_heads_eval [OF m])
    qed
    then show ?thesis
      by (intro arg_cong [where f = concat] map_cong refl) auto
  qed
  then have eq: "map (\<lambda>b. concat (map (\<lambda>(h, i, j).
            take nb (drop ((b * (H * C) + (h * C + j)) * nb) (data (expand_heads H m))))
            (active_triples (layout self)))) [0..<B] =
        map (\<lambda>b. concat (map (\<lambda>(h, i, j). take nb (drop ((b * C + j) * nb) (data m)))
            (active_triples (layout self)))) [0..<B]"
    by (intro map_cong refl)
  show ?thesis
    unfolding block_mask_per_head [OF l wf m bs S H False] block_mask_broadcast [OF l wf m bs S] eq
    by simp
qed

text \<open>
  C4. Let the layout be indexed [head, row block, column block] with \<open>H\<close> heads and \<open>C\<close>
  column blocks, let the block size be positive, and let the mask have shape (B, 1, 1, S)
  where \<open>S\<close>, the length of the key sequence, is \<open>C\<close> blocks long (the column blocks of a
  layout are those of the key sequence, \<open>col_block = key_seq_len / block_size\<close>). Then, with
  the gather indices that \<^verbatim>\<open>create_triton_kernels\<close> derives from the layout, the block mask
  of the mask expanded to shape (B, H, 1, S) with the same values for every head (gathered
  through \<open>to_gather\<close>) is the block mask of the mask itself (gathered through
  \<open>broadcast_to_gather\<close>): one tensor of shape (B, number of active blocks, block_size),
  which holds the blocks of all heads.
\<close>

theorem mask_broadcast_equivalence:
  assumes "shape (layout self) = [H, R, C]" and "well_formed (layout self)"
    and "shape m = [B, 1, 1, S]" and "well_formed m"
    and "block_size self = int nb" and "0 < nb" and "S = C * nb"
  shows "block_mask (fst (create_triton_kernels self dev)) (expand_heads H m) =
         block_mask (fst (create_triton_kernels self dev)) m \<and>
         (\<exists>bm. block_mask (fst (create_triton_kernels self dev)) m = Inr bm \<and>
               shape bm = [B, length (active_triples (layout self)), nb])"
  using assms by (intro block_mask_expand_heads [where Hl = H and R = R]) simp_all

lemma ex_self3_simps:
  "to_gather ex_self3 = Some [0, 0, 1, 3]"
  "broadcast_to_gather ex_self3 = Some [0, 0, 1, 1]"
  "block_size ex_self3 = 16"
  "layout ex_self3 = ex_layout3"
  by (simp_all add: ex_self3_def create_triton_kernels_def Let_def shape_at_def nonzero_def
        ex_layout3_def ex_self_def upt_rec)

lemma ex_block_mask3:
  "block_mask ex_self3 ex_mask32 =
     Inr \<lparr>shape = [1, 4, 16], dtype = Float16, device = ''cuda:0'',
          data = replicate 16 0 @ replicate 16 0 @
                 replicate 16 (- 1000000) @ replicate 16 (- 1000000)\<rparr>"
  by (simp add: block_mask_def ex_self3_simps ex_mask32_def shape_at_def reshape_def
        numel_def index_blocks_def)

theorem mask_broadcast_equivalence_witness:
  "shape (layout (ex_self\<lparr>layout := ex_layout3\<rparr>)) = [2, 2, 2] \<and>
   well_formed (layout (ex_self\<lparr>layout := ex_layout3\<rparr>)) \<and>
   shape ex_mask32 = [1, 1, 1, 32] \<and> well_formed ex_mask32 \<and>
   block_size (ex_self\<lparr>layout := ex_layout3\<rparr>) = 16 \<and>
   to_gather ex_self3 = Some [0, 0, 1, 3] \<and> broadcast_to_gather ex_self3 = Some [0, 0, 1, 1] \<and>
   shape (expand_heads 2 ex_mask32) = [1, 2, 1, 32] \<and>
   block_mask ex_self3 (expand_heads 2 ex_mask32) = block_mask ex_self3 ex_mask32 \<and>
   block_mask ex_self3 (expand_heads 2 ex_mask32) =
     Inr \<lparr>shape = [1, 4, 16], dtype = Float16, device = ''cuda:0'',
          data = replicate 16 0 @ replicate 16 0 @
                 replicate 16 (- 1000000) @ replicate 16 (- 1000000)\<rparr>"
proof -
  have l: "shape (layout (ex_self\<lparr>layout := ex_layout3\<rparr>)) = [2, 2, 2]"
    and wf: "well_formed (layout (ex_self\<lparr>layout := ex_layout3\<rparr>))"
    by (simp_all add: ex_layout3_def well_formed_def)
  have m: "shape ex_mask32 = [1, 1, 1, 32]" and wfm: "well_formed ex_mask32"
    by (simp_all add: ex_mask32_def well_formed_def)
  have bs: "block_size (ex_self\<lparr>layout := ex_layout3\<rparr>) = int 16" "(0::nat) < 16"
    by (simp_all add: ex_self_def)
  have S: "(32::nat) = 2 * 16" by simp
  have e: "shape (expand_heads 2 ex_mask32) = [1, 2, 1, 32]"
    by (simp add: expand_heads_def ex_mask32_def)
  from mask_broadcast_equivalence [OF l wf m wfm bs S, of "''cuda:0''"] l wf m wfm bs e
  show ?thesis by (simp add: ex_self3_def [symmetric] ex_self3_simps ex_block_mask3)
qed


section \<open>The caller's tensors\<close>

lemma keeps_bind:
  assumes "keeps n m Q" "\<And>x. Q x \<Longrightarrow> keeps n (f x) R"
  shows "keeps n (bind_store m f) R"
  unfolding keeps_def
proof (intro allI impI)
  fix h :: "('a, 'b) store"
  assume n: "n \<le> length h"
  obtain l r h1 where m: "m h = (l, r, h1)" by (cases "m h")
  from assms(1) n m have 1: "length h \<le> length h1" "take n h1 = take n h"
    and q: "\<And>x. r = Inr x \<Longrightarrow> Q x"
    by (auto simp: keeps_def)
  show "case bind_store m f h of
          (l, r, h') \<Rightarrow> length h \<le> length h' \<and> take n h' = take n h \<and> (\<forall>x. r = Inr x \<longrightarrow> R x)"
  proof (cases r)
    case (Inl e)
    with m 1 show ?thesis by (simp add: bind_store_def)
  next
    case (Inr x)
    obtain l2 r2 h2 where f: "f x h1 = (l2, r2, h2)" by (cases "f x h1")
    from n 1(1) have n1: "n \<le> length h1" by simp
    from assms(2) [OF q [OF Inr], unfolded keeps_def, rule_format, OF n1] f
    have "length h1 \<le> length h2" "take n h2 = take n h1" "\<And>y. r2 = Inr y \<Longrightarrow> R y"
      by auto
    with m Inr f 1 show ?thesis by (simp add: bind_store_def)
  qed
qed

lemma keeps_weaken:
  "keeps n m Q \<Longrightarrow> (\<And>x. Q x \<Longrightarrow> R x) \<Longrightarrow> keeps n m R"
  by (fastforce simp: keeps_def split: prod.splits)

lemma keeps_pure: "keeps n (pure_step s) (\<lambda>_. True)"
  by (simp add: keeps_def pure_step_def)

lemma keeps_return: "Q x \<Longrightarrow> keeps n (pure_step ([], Inr x)) Q"
  by (simp add: keeps_def pure_step_def)

lemma keeps_load: "keeps n (load r) (\<lambda>_. True)"
  by (simp add: keeps_def load_def)

lemma keeps_new_tensor: "keeps n (new_tensor t) (\<lambda>r. n \<le> r)"
  by (simp add: keeps_def new_tensor_def)

lemma keeps_overwrite: "n \<le> r \<Longrightarrow> keeps n (overwrite r t) (\<lambda>x. n \<le> x)"
  by (simp add: keeps_def overwrite_def)

lemma keeps_overwrite_or_new:
  "n \<le> r \<Longrightarrow> keeps n (if c then overwrite r t else new_tensor t) (\<lambda>x. n \<le> x)"
  by (simp add: keeps_overwrite keeps_new_tensor)

lemma keeps_to_dtype_store: "keeps n (to_dtype_store ext dt r) (\<lambda>_. True)"
  unfolding to_dtype_store_def
  by (rule keeps_bind [OF keeps_load])
     (auto intro: keeps_return keeps_weaken [OF keeps_new_tensor])

lemma keeps_half_store: "keeps n (half_store ext r) (\<lambda>_. True)"
  by (simp add: half_store_def keeps_to_dtype_store)

lemma keeps_convert_mask_store: "keeps n (convert_mask_store ext att_mask) (\<lambda>_. True)"
proof (cases att_mask)
  case None
  then show ?thesis by (simp add: convert_mask_store_def keeps_pure)
next
  case (Some r)
  have "keeps n (bind_store (pure_step (update_mask_type ext m)) (\<lambda>m1.
                   bind_store (new_tensor m1) (\<lambda>r1. pure_step ([], Inr (Some r1))))) (\<lambda>_. True)" for m
    by (rule keeps_bind [OF keeps_pure] keeps_bind [OF keeps_new_tensor] keeps_return | simp)+
  then show ?thesis
    unfolding convert_mask_store_def Some
    by (auto intro!: keeps_bind [OF keeps_load] keeps_return)
qed

lemma keeps_half_mask_store: "keeps n (half_mask_store ext att_mask) (\<lambda>_. True)"
  by (cases att_mask)
     (auto simp: half_mask_store_def intro!: keeps_pure keeps_bind [OF keeps_half_store] keeps_return)

lemma keeps_apply_mask_store:
  "n \<le> s \<Longrightarrow> keeps n (apply_mask_store ext self q s att_mask) (\<lambda>x. n \<le> x)"
  unfolding apply_mask_store_def
  by (cases att_mask)
     (auto intro!: keeps_bind [OF keeps_load] keeps_bind [OF keeps_pure] keeps_return keeps_overwrite)

lemma keeps_masked_scores_store:
  "keeps n (masked_scores_store ext self q k att_mask) (\<lambda>x. n \<le> x)"
  unfolding masked_scores_store_def
  by (rule keeps_bind [OF keeps_load] keeps_bind [OF keeps_pure] keeps_bind [OF keeps_new_tensor]
        keeps_apply_mask_store | assumption)+

lemma keeps_weighted_values_store:
  "n \<le> s \<Longrightarrow> keeps n (weighted_values_store ext sip self s v scale dt) (\<lambda>_. True)"
  unfolding weighted_values_store_def
  by (rule keeps_bind [OF keeps_load] keeps_bind [OF keeps_pure] keeps_bind [OF keeps_new_tensor]
        keeps_bind [OF keeps_overwrite_or_new] keeps_to_dtype_store | assumption)+

lemma keeps_attention_store:
  "keeps n (attention_store ext sip self q k v att_mask scale) (\<lambda>_. True)"
  unfolding attention_store_def
  by (rule keeps_bind [OF keeps_load] keeps_bind [OF keeps_pure]
        keeps_bind [OF keeps_convert_mask_store] keeps_bind [OF keeps_half_store]
        keeps_bind [OF keeps_half_mask_store] keeps_bind [OF keeps_masked_scores_store]
        keeps_weighted_values_store | assumption)+

lemma forward_store_cases:
  obtains
    (failed) self0 l0 e where
      "forward_store ext sip self h q k v att_mask scale = (self0, l0, Inl e, h)"
  | (attended) self0 l0 l1 r1 h1 where
      "attention_store ext sip self0 q k v att_mask scale h = (l1, r1, h1)"
      "forward_store ext sip self h q k v att_mask scale = (self0, l0 @ l1, r1, h1)"
proof (cases "sparse_dot_sdd self")
  case None
  obtain self0 err where c: "create_triton_kernels self (device (h ! q)) = (self0, err)"
    by (cases "create_triton_kernels self (device (h ! q))")
  show ?thesis
  proof (cases err)
    case None2: None
    obtain l1 r1 h1 where a: "attention_store ext sip self0 q k v att_mask scale h = (l1, r1, h1)"
      by (cases "attention_store ext sip self0 q k v att_mask scale h")
    with None c None2 show ?thesis
      by (intro attended [of self0 l1 r1 h1 "[CreateKernels (device (h ! q))]"])
         (simp_all add: forward_store_def ensure_kernels_def)
  next
    case (Some e)
    with None c show ?thesis
      by (intro failed [of self0 "[CreateKernels (device (h ! q))]" e])
         (simp add: forward_store_def ensure_kernels_def)
  qed
next
  case (Some op)
  obtain l1 r1 h1 where a: "attention_store ext sip self q k v att_mask scale h = (l1, r1, h1)"
    by (cases "attention_store ext sip self q k v att_mask scale h")
  with Some show ?thesis
    by (intro attended [of self l1 r1 h1 "[]"]) (simp_all add: forward_store_def ensure_kernels_def)
qed

text \<open>
  C10. A call of \<^verbatim>\<open>forward\<close> leaves every tensor that was in the store before the call
  as it was, in particular the caller's \<open>q\<close>, \<open>k\<close>, \<open>v\<close> and \<open>att_mask\<close> with their values and
  dtypes: the casts, the division and the kernels give new tensors (or the caller's own
  tensor, unchanged, when a cast has nothing to do), and the only tensor that is written
  in place is the result of \<open>sparse_dot_sdd\<close>.
\<close>

theorem forward_keeps_inputs:
  assumes "forward_store ext sip self h q k v att_mask scale = (self1, evs, r, h')"
  shows "length h \<le> length h' \<and> (\<forall>a < length h. h' ! a = h ! a) \<and>
         (q < length h \<longrightarrow> h' ! q = h ! q \<and> dtype (h' ! q) = dtype (h ! q)) \<and>
         (k < length h \<longrightarrow> h' ! k = h ! k \<and> dtype (h' ! k) = dtype (h ! k)) \<and>
         (v < length h \<longrightarrow> h' ! v = h ! v \<and> dtype (h' ! v) = dtype (h ! v)) \<and>
         (\<forall>m. att_mask = Some m \<and> m < length h \<longrightarrow>
              h' ! m = h ! m \<and> dtype (h' ! m) = dtype (h ! m))"
proof -
  have "length h \<le> length h' \<and> take (length h) h' = take (length h) h"
  proof (cases rule: forward_store_cases [of ext sip self h q k v att_mask scale])
    case (failed self0 l0 e)
    with assms show ?thesis by simp
  next
    case (attended self0 l0 l1 r1 h1)
    with assms have "h' = h1" by simp
    with keeps_attention_store [of "length h" ext sip self0 q k v att_mask scale] attended(1)
    show ?thesis by (auto simp: keeps_def)
  qed
  then have len: "length h \<le> length h'" and same: "\<And>a. a < length h \<Longrightarrow> h' ! a = h ! a"
    by (auto simp: list_eq_iff_nth_eq)
  then show ?thesis by simp
qed

lemma ex_block_mask: "block_mask (ex_bound dev) ex_mask16 = Inr (ex_mask16\<lparr>shape := [1, 1, 16]\<rparr>)"
  by (simp add: block_mask_def ex_mask16_def shape_at_def reshape_def numel_def index_blocks_def
      ex_bound_def create_triton_kernels_def nonzero_def ex_layout1_def Let_def)

lemma ex_iadd:
  "iadd ex_ext_scores ex_scores (unsqueeze_m2 (ex_mask16\<lparr>shape := [1, 1, 16]\<rparr>)) = Some ex_masked_scores"
  by (simp add: iadd_def broadcastable_to_def broadcast_index_def unsqueeze_m2_def ex_scores_def
      ex_mask16_def ex_ext_def ex_ext_scores_def ex_masked_scores_def upt_rec nth_append nth_replicate)

lemma ex_apply_mask:
  "shape q1 = [1, 1, 16, 4] \<Longrightarrow>
   apply_mask ex_ext_scores (ex_bound dev) q1 ex_scores (Some ex_mask16) = Inr ex_masked_scores"
proof -
  have "shape ex_mask16 = [1, 1, 1, 16]" by (simp add: ex_mask16_def)
  with ex_iadd show "shape q1 = [1, 1, 16, 4] \<Longrightarrow> ?thesis"
    by (simp add: apply_mask_def mask_shape_check_def shape_at_def ex_block_mask)
qed

lemma ex_ext_scores_simps [simp]:
  "matmul_call ex_ext_scores op a b = (if mm_mode op = ''sdd'' then Some ex_scores else Some b)"
  "softmax_call ex_ext_scores sm x scale c = Some x"
  "dropout_call ex_ext_scores p x = x"
  by (simp_all add: ex_ext_scores_def ex_ext_def)

lemma ex_tensor_simps [simp]:
  "dtype ex_mask16 = Float16" "dtype ex_scores = Float16" "dtype ex_masked_scores = Float16"
  by (simp_all add: ex_mask16_def ex_scores_def ex_masked_scores_def)

lemmas store_steps = forward_store_def attention_store_def masked_scores_store_def
  weighted_values_store_def apply_mask_store_def half_mask_store_def convert_mask_store_def
  half_store_def to_dtype_store_def bind_store_def pure_step_def new_tensor_def load_def
  overwrite_def

lemma ex_forward_store:
  "forward_store ex_ext_scores True ex_self ex_store 0 0 0 (Some 1) 1 =
     (ex_bound ''cuda:0'',
      [CreateKernels ''cuda:0'',
       SparseDotSDD \<lparr>mm_layout = ex_layout1, mm_block = 16, mm_mode = ''sdd'',
                      mm_trans_a = False, mm_trans_b = True, mm_device = ''cuda:0''\<rparr>
         (div_scalar ex_ext_scores (ex_q ''cuda:0'' Float16) (sqrt 4)) (ex_q ''cuda:0'' Float16),
       SparseSoftmax \<lparr>sm_layout = ex_layout1, sm_block = 16, sm_device = ''cuda:0''\<rparr>
         ex_masked_scores 1 False,
       SparseDotDSD \<lparr>mm_layout = ex_layout1, mm_block = 16, mm_mode = ''dsd'',
                      mm_trans_a = False, mm_trans_b = False, mm_device = ''cuda:0''\<rparr>
         ex_masked_scores (ex_q ''cuda:0'' Float16)],
      Inr 5,
      [ex_q ''cuda:0'' Float16, ex_mask16,
       div_scalar ex_ext_scores (ex_q ''cuda:0'' Float16) (sqrt 4),
       ex_masked_scores, ex_masked_scores, ex_q ''cuda:0'' Float16])"
  by (simp add: store_steps ensure_kernels_def ex_create ex_store_def lift_check_def
     check_shapes_def shape_at_def lift_index_def call_sdd_def call_softmax_def call_dsd_def
     kernel_result_def ex_apply_mask)
     (simp add: ex_layout1_def)

lemma ex_store_simps:
  "ex_store ! 0 = ex_q ''cuda:0'' Float16" "ex_store ! 1 = ex_mask16" "length ex_store = 2"
  by (simp_all add: ex_store_def)

theorem forward_keeps_inputs_witness:
  "fst (snd (snd (forward_store ex_ext_scores True ex_self ex_store 0 0 0 (Some 1) 1))) = Inr 5 \<and>
   snd (snd (snd (forward_store ex_ext_scores True ex_self ex_store 0 0 0 (Some 1) 1))) ! 0 =
     ex_q ''cuda:0'' Float16 \<and>
   snd (snd (snd (forward_store ex_ext_scores True ex_self ex_store 0 0 0 (Some 1) 1))) ! 1 =
     ex_mask16 \<and>
   snd (snd (snd (forward_store ex_ext_scores True ex_self ex_store 0 0 0 (Some 1) 1))) ! 3 =
     ex_masked_scores \<and>
   ex_store ! 0 = ex_q ''cuda:0'' Float16 \<and> ex_store ! 1 = ex_mask16 \<and> length ex_store = 2"
  using forward_keeps_inputs [OF ex_forward_store]
  unfolding ex_forward_store
  by (simp add: ex_store_simps)



section \<open>The store and the values\<close>

text \<open>
  \<^verbatim>\<open>forward\<close> on the store computes what \<^verbatim>\<open>forward\<close> on values computes: started on a store
  that holds the caller's tensors, it ends with the same instance, the same events and the
  same error, or with the address of a tensor that is the result on values.
\<close>

lemma bind_store_load [simp]: "bind_store (load r) f h = f (h ! r) h"
  by (simp add: bind_store_def load_def split: prod.splits)

lemma bind_store_new [simp]: "bind_store (new_tensor t) f h = f (length h) (h @ [t])"
  by (simp add: bind_store_def new_tensor_def split: prod.splits)

lemma bind_store_overwrite [simp]: "bind_store (overwrite r t) f h = f r (h[r := t])"
  by (simp add: bind_store_def overwrite_def split: prod.splits)

lemma bind_store_pure_Inl [simp]: "bind_store (pure_step (l, Inl e)) f h = (l, Inl e, h)"
  by (simp add: bind_store_def pure_step_def)

lemma bind_store_pure_Inr [simp]:
  "bind_store (pure_step (l, Inr x)) f h = (case f x h of (l', r, h2) \<Rightarrow> (l @ l', r, h2))"
  by (simp add: bind_store_def pure_step_def)

lemma to_dtype_store_run:
  "to_dtype_store ext dt r h =
     (if dtype (h ! r) = dt then ([], Inr r, h)
      else ([], Inr (length h), h @ [to_dtype ext dt (h ! r)]))"
  by (simp add: to_dtype_store_def pure_step_def new_tensor_def)

lemma refines_masked_scores:
  assumes "q < length h" "k < length h" "\<forall>m. att_mask = Some m \<longrightarrow> m < length h"
  shows "refines (masked_scores_store ext self q k att_mask) h
           (masked_scores ext self (h ! q) (h ! k) (map_option ((!) h) att_mask))"
proof (cases "shape_at (shape (h ! q)) (- 1)")
  case None
  then show ?thesis
    by (simp add: refines_def masked_scores_store_def masked_scores_def lift_index_def bind_log_def)
next
  case (Some d)
  show ?thesis
  proof (cases "sparse_dot_sdd self")
    case None
    with Some assms show ?thesis
      by (simp add: refines_def masked_scores_store_def masked_scores_def lift_index_def bind_log_def
            call_sdd_def nth_append)
  next
    case sdd: (Some op)
    show ?thesis
    proof (cases "matmul_call ext op (div_scalar ext (h ! q) (sqrt (real d))) (h ! k)")
      case None
      with Some sdd assms show ?thesis
        by (simp add: refines_def masked_scores_store_def masked_scores_def lift_index_def bind_log_def
              call_sdd_def nth_append kernel_result_def)
    next
      case x: (Some x)
      show ?thesis
      proof (cases att_mask)
        case None
        with Some sdd x assms show ?thesis
          by (simp add: refines_def masked_scores_store_def masked_scores_def lift_index_def bind_log_def
                call_sdd_def nth_append kernel_result_def apply_mask_store_def apply_mask_def pure_step_def)
      next
        case m: (Some m)
        with assms have ml: "m < length h" by simp
        show ?thesis
        proof (cases "apply_mask ext self (div_scalar ext (h ! q) (sqrt (real d))) x (Some (h ! m))")
          case (Inl e)
          with Some sdd x m ml assms show ?thesis
            by (simp add: refines_def masked_scores_store_def masked_scores_def lift_index_def bind_log_def
                  call_sdd_def nth_append kernel_result_def apply_mask_store_def)
        next
          case (Inr x1)
          with Some sdd x m ml assms show ?thesis
            by (simp add: refines_def masked_scores_store_def masked_scores_def lift_index_def bind_log_def
                  call_sdd_def nth_append kernel_result_def apply_mask_store_def overwrite_def)
        qed
      qed
    qed
  qed
qed


lemma refines_weighted_values:
  assumes "s < length h" "v < length h"
  shows "refines (weighted_values_store ext sip self s v scale dt) h
           (weighted_values ext self (h ! s) (h ! v) scale dt)"
proof (cases "sparse_softmax self")
  case None
  then show ?thesis
    by (simp add: refines_def weighted_values_store_def weighted_values_def bind_log_def
          call_softmax_def)
next
  case sm: (Some sm)
  show ?thesis
  proof (cases "softmax_call ext sm (h ! s) scale (causal self)")
    case None
    with sm show ?thesis
      by (simp add: refines_def weighted_values_store_def weighted_values_def bind_log_def
            call_softmax_def kernel_result_def)
  next
    case x: (Some x)
    show ?thesis
    proof (cases "sparse_dot_dsd self")
      case None
      with sm x assms show ?thesis
        by (simp add: refines_def weighted_values_store_def weighted_values_def bind_log_def
              call_softmax_def call_dsd_def kernel_result_def nth_append)
    next
      case dsd: (Some dsd)
      show ?thesis
      proof (cases "matmul_call ext dsd (dropout_call ext (attn_drop self) x) (h ! v)")
        case None
        with sm x dsd assms show ?thesis
          by (simp add: refines_def weighted_values_store_def weighted_values_def bind_log_def
                call_softmax_def call_dsd_def kernel_result_def nth_append)
      next
        case (Some a)
        with sm x dsd assms show ?thesis
          by (simp add: refines_def weighted_values_store_def weighted_values_def bind_log_def
                call_softmax_def call_dsd_def kernel_result_def nth_append to_dtype_store_run
                to_dtype_def)
      qed
    qed
  qed
qed


lemma bind_store_Inr:
  "m h = (l, Inr x, h1) \<Longrightarrow>
     bind_store m f h = (case f x h1 of (l', r, h2) \<Rightarrow> (l @ l', r, h2))"
  by (simp add: bind_store_def)

lemma bind_store_Inr_nil:
  "m h = ([], Inr x, h1) \<Longrightarrow> bind_store m f h = f x h1"
  by (simp add: bind_store_def split: prod.splits)

lemma bind_store_pure_nil [simp]: "bind_store (pure_step ([], Inr x)) f h = f x h"
  by (simp add: bind_store_def pure_step_def split: prod.splits)

lemma bind_log_Inl [simp]: "bind_log (l, Inl e) f = (l, Inl e)"
  by (simp add: bind_log_def)

lemma keepsD:
  assumes "keeps n m Q" "n \<le> length h" "m h = (l, r, h')"
  shows "length h \<le> length h'" "take n h' = take n h"
  using assms(1) [unfolded keeps_def, rule_format, OF assms(2)] assms(3) by simp_all

lemma bind_log_Inr:
  "m = (l, Inr x) \<Longrightarrow> bind_log m f = (case f x of (l', r) \<Rightarrow> (l @ l', r))"
  by (simp add: bind_log_def)

lemma to_dtype_store_ext:
  assumes "r < length h"
  obtains a h' where "to_dtype_store ext dt r h = ([], Inr a, h')" "a < length h'"
    "h' ! a = to_dtype ext dt (h ! r)" "length h \<le> length h'" "\<forall>b<length h. h' ! b = h ! b"
proof (cases "dtype (h ! r) = dt")
  case True
  with assms that [of r h] show ?thesis
    by (simp add: to_dtype_store_run to_dtype_def)
next
  case False
  with assms that [of "length h" "h @ [to_dtype ext dt (h ! r)]"] show ?thesis
    by (simp add: to_dtype_store_run nth_append)
qed

lemma convert_mask_store_ext:
  assumes "\<forall>m. att_mask = Some m \<longrightarrow> m < length h"
  obtains w am h' where
    "convert_mask_store ext att_mask h = (w, Inr am, h')"
    "convert_mask ext (map_option ((!) h) att_mask) = (w, Inr (map_option ((!) h') am))"
    "\<forall>m. am = Some m \<longrightarrow> m < length h'" "length h \<le> length h'"
    "\<forall>b<length h. h' ! b = h ! b"
proof (cases att_mask)
  case None
  with that [of "[]" None h] show ?thesis
    by (simp add: convert_mask_store_def convert_mask_def pure_step_def)
next
  case (Some m)
  with assms have m: "m < length h" by simp
  show ?thesis
  proof (cases "dtype (h ! m) = Bool")
    case True
    with Some m that [of "[Warn MaskHasToBeAdditive]" "Some (length h)"
        "h @ [bool_mask_to_additive ext (h ! m)]"] show ?thesis
      by (simp add: convert_mask_store_def convert_mask_def pure_step_def update_mask_type_def
            bind_log_def nth_append)
  next
    case False
    with Some m that [of "[]" "Some m" h] show ?thesis
      by (simp add: convert_mask_store_def convert_mask_def pure_step_def)
  qed
qed

lemma half_mask_store_ext:
  assumes "\<forall>m. am = Some m \<longrightarrow> m < length h"
  obtains am' h' where
    "half_mask_store ext am h = ([], Inr am', h')"
    "map_option ((!) h') am' = map_option (half ext) (map_option ((!) h) am)"
    "\<forall>m. am' = Some m \<longrightarrow> m < length h'" "length h \<le> length h'"
    "\<forall>b<length h. h' ! b = h ! b"
proof (cases am)
  case None
  with that [of None h] show ?thesis
    by (simp add: half_mask_store_def pure_step_def)
next
  case (Some m)
  with assms have m: "m < length h" by simp
  from to_dtype_store_ext [OF m, of ext Float16] obtain a h' where
    a: "to_dtype_store ext Float16 m h = ([], Inr a, h')" "a < length h'"
      "h' ! a = to_dtype ext Float16 (h ! m)" "length h \<le> length h'"
      "\<forall>b<length h. h' ! b = h ! b"
    by blast
  with Some that [of "Some a" h'] show ?thesis
    by (simp add: half_mask_store_def half_store_def half_def
          bind_store_Inr_nil [where m = "to_dtype_store ext Float16 m" and h = h, OF a(1)]
          pure_step_def)
qed

lemma refines_attention:
  assumes "q < length h" "k < length h" "v < length h"
    "\<forall>m. att_mask = Some m \<longrightarrow> m < length h"
  shows "refines (attention_store ext sip self q k v att_mask scale) h
           (attention ext self (h ! q) (h ! k) (h ! v) (map_option ((!) h) att_mask) scale)"
proof -
  from convert_mask_store_ext [OF assms(4), of ext] obtain w am1 h1 where
    c: "convert_mask_store ext att_mask h = (w, Inr am1, h1)"
      "convert_mask ext (map_option ((!) h) att_mask) = (w, Inr (map_option ((!) h1) am1))"
      "\<forall>m. am1 = Some m \<longrightarrow> m < length h1" "length h \<le> length h1"
      "\<forall>b<length h. h1 ! b = h ! b"
    by blast
  from c assms have in1: "q < length h1" "k < length h1" "v < length h1"
    and v1: "h1 ! q = h ! q" "h1 ! k = h ! k" "h1 ! v = h ! v"
    by simp_all
  show ?thesis
  proof (cases "check_shapes self (shape (h ! q)) (shape (h ! k))")
    case (Some e)
    with v1 show ?thesis
      by (simp add: refines_def attention_store_def attention_def
            bind_store_Inr [where m = "convert_mask_store ext att_mask" and h = h, OF c(1)]
            bind_log_Inr [OF c(2)] lift_check_def)
  next
    case None
    from to_dtype_store_ext [OF in1(1), of ext Float16] obtain q1 h2 where
      hq: "to_dtype_store ext Float16 q h1 = ([], Inr q1, h2)" "q1 < length h2"
        "h2 ! q1 = to_dtype ext Float16 (h1 ! q)" "length h1 \<le> length h2"
        "\<forall>b<length h1. h2 ! b = h1 ! b"
      by blast
    from hq in1 have in2: "k < length h2" "v < length h2" by simp_all
    from to_dtype_store_ext [OF in2(1), of ext Float16] obtain k1 h3 where
      hk: "to_dtype_store ext Float16 k h2 = ([], Inr k1, h3)" "k1 < length h3"
        "h3 ! k1 = to_dtype ext Float16 (h2 ! k)" "length h2 \<le> length h3"
        "\<forall>b<length h2. h3 ! b = h2 ! b"
      by blast
    from hk in2 have in3: "v < length h3" by simp
    from to_dtype_store_ext [OF in3, of ext Float16] obtain v1' h4 where
      hv: "to_dtype_store ext Float16 v h3 = ([], Inr v1', h4)" "v1' < length h4"
        "h4 ! v1' = to_dtype ext Float16 (h3 ! v)" "length h3 \<le> length h4"
        "\<forall>b<length h3. h4 ! b = h3 ! b"
      by blast
    from c hq hk hv have am4: "\<forall>m. am1 = Some m \<longrightarrow> m < length h4" by auto
    from half_mask_store_ext [OF am4, of ext] obtain am2 h5 where
      hm: "half_mask_store ext am1 h4 = ([], Inr am2, h5)"
        "map_option ((!) h5) am2 = map_option (half ext) (map_option ((!) h4) am1)"
        "\<forall>m. am2 = Some m \<longrightarrow> m < length h5" "length h4 \<le> length h5"
        "\<forall>b<length h4. h5 ! b = h4 ! b"
      by blast
    from hq hk hv hm in1 in2 in3 v1 have vals:
      "h5 ! q1 = half ext (h ! q)" "h5 ! k1 = half ext (h ! k)" "h5 ! v1' = half ext (h ! v)"
      "q1 < length h5" "k1 < length h5" "v1' < length h5"
      by (simp_all add: half_def)
    from c hq hk hv hm have "map_option ((!) h4) am1 = map_option ((!) h1) am1"
      by (cases am1) simp_all
    with hm have mval: "map_option ((!) h5) am2 = map_option (half ext) (map_option ((!) h1) am1)"
      by simp
    obtain l6 r6 h6 where ms: "masked_scores_store ext self q1 k1 am2 h5 = (l6, r6, h6)"
      by (cases "masked_scores_store ext self q1 k1 am2 h5") blast
    from refines_masked_scores [OF vals(4) vals(5) hm(3), of ext self] ms vals mval
    have r6: "masked_scores ext self (half ext (h ! q)) (half ext (h ! k))
                (map_option (half ext) (map_option ((!) h1) am1)) = (l6, map_sum id ((!) h6) r6)"
      "\<forall>a. r6 = Inr a \<longrightarrow> a < length h6"
      by (simp_all add: refines_def prod_eq_iff)
    from keepsD [OF keeps_masked_scores_store order_refl ms]
    have k6: "length h5 \<le> length h6" "take (length h5) h6 = h5"
      by simp_all
    have pre: "attention_store ext sip self q k v att_mask scale h =
            (case bind_store (masked_scores_store ext self q1 k1 am2)
                 (\<lambda>s. weighted_values_store ext sip self s v1' scale (dtype (h ! q))) h5 of
              (l', r, h2) \<Rightarrow> (w @ l', r, h2))"
      using None v1
      by (simp add: attention_store_def
            bind_store_Inr [where m = "convert_mask_store ext att_mask" and h = h, OF c(1)]
            lift_check_def half_store_def
            bind_store_Inr_nil [where m = "to_dtype_store ext Float16 q" and h = h1, OF hq(1)]
            bind_store_Inr_nil [where m = "to_dtype_store ext Float16 k" and h = h2, OF hk(1)]
            bind_store_Inr_nil [where m = "to_dtype_store ext Float16 v" and h = h3, OF hv(1)]
            bind_store_Inr_nil [where m = "half_mask_store ext am1" and h = h4, OF hm(1)])
    have val: "attention ext self (h ! q) (h ! k) (h ! v) (map_option ((!) h) att_mask) scale =
            (case bind_log (l6, map_sum id ((!) h6) r6)
                 (\<lambda>s. weighted_values ext self s (half ext (h ! v)) scale (dtype (h ! q))) of
              (l', r) \<Rightarrow> (w @ l', r))"
      using None
      by (simp add: attention_def bind_log_Inr [OF c(2)] lift_check_def Let_def r6(1)
            bind_log_Inr [of "([], Inr ())", OF refl])
    show ?thesis
    proof (cases r6)
      case (Inl e)
      with ms show ?thesis
        unfolding refines_def pre val by (simp add: bind_store_def)
    next
      case (Inr s)
      with r6 have s: "s < length h6" by simp
      from vals k6 have v6: "v1' < length h6" "h6 ! v1' = half ext (h ! v)"
        by (simp_all, metis nth_take)
      obtain l7 r7 h7 where
        wv: "weighted_values_store ext sip self s v1' scale (dtype (h ! q)) h6 = (l7, r7, h7)"
        by (cases "weighted_values_store ext sip self s v1' scale (dtype (h ! q)) h6") blast
      from refines_weighted_values [OF s v6(1), of ext sip self scale "dtype (h ! q)"] v6 wv
      have r7: "weighted_values ext self (h6 ! s) (half ext (h ! v)) scale (dtype (h ! q)) =
                  (l7, map_sum id ((!) h7) r7)"
        "\<forall>a. r7 = Inr a \<longrightarrow> a < length h7"
        by (simp_all add: refines_def prod_eq_iff)
      from ms Inr have ms': "masked_scores_store ext self q1 k1 am2 h5 = (l6, Inr s, h6)"
        by simp
      show ?thesis
        unfolding refines_def pre val
          bind_store_Inr [where m = "masked_scores_store ext self q1 k1 am2" and h = h5, OF ms']
        using Inr r7 wv by (simp add: bind_log_def)
    qed
  qed
qed


lemma forward_store_forward:
  fixes h :: "('a, 'dev) store"
  assumes "q < length h" "k < length h" "v < length h"
    "\<forall>m. att_mask = Some m \<longrightarrow> m < length h"
  shows "(case forward_store ext sip self h q k v att_mask scale of
            (self1, l, r, h') \<Rightarrow>
              forward ext self (h ! q) (h ! k) (h ! v) (map_option ((!) h) att_mask) scale =
                (self1, l, map_sum id ((!) h') r) \<and>
              (\<forall>a. r = Inr a \<longrightarrow> a < length h'))"
proof -
  obtain self1 l0 e0 where
    ek: "(ensure_kernels self (device (h ! q)) ::
            'dev BlockSparseAttention \<times> ('a, 'dev) event list \<times> error option) = (self1, l0, e0)"
    by (cases "ensure_kernels self (device (h ! q)) ::
            'dev BlockSparseAttention \<times> ('a, 'dev) event list \<times> error option") blast
  show ?thesis
  proof (cases e0)
    case (Some e)
    with ek show ?thesis
      by (simp add: forward_store_def forward_def)
  next
    case None
    from refines_attention [OF assms, of ext sip self1 scale] None ek show ?thesis
      by (simp add: forward_store_def forward_def refines_def prod_eq_iff split: prod.splits)
  qed
qed

end
